theory Spec2Isabelle
  imports Complex_Main
begin

section \<open>JavaScript strings\<close>

text \<open>
  A JavaScript string is a sequence of UTF-16 code units. The string methods the
  program uses (\<open>replace\<close> with a regular expression without the \<open>u\<close> flag,
  \<open>lastIndexOf\<close>, \<open>substring\<close>, \<open>split\<close>, \<open>trim\<close>, \<open>startsWith\<close>, \<open>endsWith\<close>) all
  work on code units, so a string is modelled as the list of its code units, each a
  natural number. \<open>utf16\<close> writes an ASCII literal as such a list.
\<close>

type_synonym jsstring = "nat list"

definition utf16 :: "string \<Rightarrow> jsstring" where
  "utf16 s = map of_char s"

subsection \<open>sanitizeKey\<close>

text \<open>
  \<^verbatim>\<open>name.replace(/[^a-zA-Z0-9]/g, '_').toLowerCase()\<close>

  The character class \<open>[^a-zA-Z0-9]\<close> is tested per code unit; every code unit outside
  the three ASCII ranges is replaced by \<open>_\<close> (code unit 95).
\<close>

definition isAsciiLower :: "nat \<Rightarrow> bool" where
  "isAsciiLower c = (97 \<le> c \<and> c \<le> 122)"

definition isAsciiUpper :: "nat \<Rightarrow> bool" where
  "isAsciiUpper c = (65 \<le> c \<and> c \<le> 90)"

definition isAsciiDigit :: "nat \<Rightarrow> bool" where
  "isAsciiDigit c = (48 \<le> c \<and> c \<le> 57)"

definition replaceNonAlnum :: "jsstring \<Rightarrow> jsstring" where
  "replaceNonAlnum s =
     map (\<lambda>c. if isAsciiLower c \<or> isAsciiUpper c \<or> isAsciiDigit c then c else 95) s"

text \<open>
  \<open>String.prototype.toLowerCase\<close> follows the Unicode case mapping, which is not a
  per-code-unit map in general. On a string of ASCII code units it maps \<open>A\<close>..\<open>Z\<close> to
  \<open>a\<close>..\<open>z\<close> and leaves everything else alone; that part is written out. What it does
  to a string with a non-ASCII code unit is the parameter \<open>unicodeLower\<close>.
\<close>

definition asciiLower :: "nat \<Rightarrow> nat" where
  "asciiLower c = (if isAsciiUpper c then c + 32 else c)"

definition toLowerCase :: "(jsstring \<Rightarrow> jsstring) \<Rightarrow> jsstring \<Rightarrow> jsstring" where
  "toLowerCase unicodeLower s =
     (if list_all (\<lambda>c. c < 128) s then map asciiLower s else unicodeLower s)"

definition sanitizeKey :: "(jsstring \<Rightarrow> jsstring) \<Rightarrow> jsstring \<Rightarrow> jsstring" where
  "sanitizeKey unicodeLower s = toLowerCase unicodeLower (replaceNonAlnum s)"

section \<open>Markdown table extractor\<close>

text \<open>
  \<open>String.prototype.trim\<close> removes white space and line terminators from both ends:
  TAB, LF, VT, FF, CR, SPACE, NBSP, U+1680, U+2000..U+200A, U+2028, U+2029, U+202F,
  U+205F, U+3000 and U+FEFF.
\<close>

definition isWhiteSpace :: "nat \<Rightarrow> bool" where
  "isWhiteSpace c =
     ((9 \<le> c \<and> c \<le> 13) \<or> c = 32 \<or> c = 160 \<or> c = 5760 \<or> (8192 \<le> c \<and> c \<le> 8202) \<or>
      c = 8232 \<or> c = 8233 \<or> c = 8239 \<or> c = 8287 \<or> c = 12288 \<or> c = 65279)"

definition trim :: "jsstring \<Rightarrow> jsstring" where
  "trim s = rev (dropWhile isWhiteSpace (rev (dropWhile isWhiteSpace s)))"

text \<open>
  \<open>s.split(sep)\<close> for a separator of one code unit: the pieces between the
  occurrences of the separator, so one piece more than there are occurrences.
\<close>

fun splitOn :: "nat \<Rightarrow> jsstring \<Rightarrow> jsstring list" where
  "splitOn sep [] = [[]]"
| "splitOn sep (c # cs) =
     (if c = sep then [] # splitOn sep cs
      else (case splitOn sep cs of
              [] \<Rightarrow> [[c]]
            | piece # pieces \<Rightarrow> (c # piece) # pieces))"

text \<open>
  \<^verbatim>\<open>line.startsWith('|') && line.endsWith('|')\<close>; the pipe is code unit 124.
\<close>

definition pipeDelimited :: "jsstring \<Rightarrow> bool" where
  "pipeDelimited line = (line \<noteq> [] \<and> hd line = 124 \<and> last line = 124)"

text \<open>
  \<^verbatim>\<open>line.replace(/\|/g, '').trim().match(/^-+$/)\<close>: with the pipes removed and the
  rest trimmed, one or more hyphens (code unit 45) and nothing else.
\<close>

definition isSeparator :: "jsstring \<Rightarrow> bool" where
  "isSeparator line =
     (let rest = trim (filter (\<lambda>c. c \<noteq> 124) line)
      in rest \<noteq> [] \<and> list_all (\<lambda>c. c = 45) rest)"

text \<open>
  \<^verbatim>\<open>line.split('|').slice(1, -1).map(c => c.trim())\<close>: \<open>slice(1, -1)\<close> drops the first
  and the last piece.
\<close>

definition cellsOf :: "jsstring \<Rightarrow> jsstring list" where
  "cellsOf line = map trim (butlast (tl (splitOn 124 line)))"

text \<open>
  The loop over the lines, with its two variables \<open>data\<close> and \<open>tableStarted\<close>:
  \<^verbatim>\<open>
  for (let line of lines) {
    line = line.trim();
    if (line.startsWith('|') && line.endsWith('|')) {
      if (line.replace(/\|/g, '').trim().match(/^-+$/)) { continue; }
      const cells = line.split('|').slice(1, -1).map(c => c.trim());
      data.push(cells);
      tableStarted = true;
    } else if (tableStarted && line === '') {
      break;
    }
  }\<close>
\<close>

fun tableLoop :: "jsstring list \<Rightarrow> jsstring list list \<Rightarrow> bool \<Rightarrow> jsstring list list" where
  "tableLoop [] data tableStarted = data"
| "tableLoop (l # ls) data tableStarted =
     (let line = trim l in
      if pipeDelimited line then
        (if isSeparator line then tableLoop ls data tableStarted
         else tableLoop ls (data @ [cellsOf line]) True)
      else if tableStarted \<and> line = [] then data
      else tableLoop ls data tableStarted)"

text \<open>
  \<^verbatim>\<open>return data.length > 0 ? data : null;\<close> The lines are the pieces between line
  feeds (code unit 10).
\<close>

definition parseMarkdownTable :: "jsstring \<Rightarrow> jsstring list list option" where
  "parseMarkdownTable markdown =
     (let data = tableLoop (splitOn 10 markdown) [] False
      in if length data > 0 then Some data else None)"

text \<open>
  The words of the specification about the extractor, to compare with the loop. A line
  is a row when, trimmed, it starts and ends with a pipe and is not a separator; it is
  blank when nothing is left of it after trimming. The table region is the part of the
  input from the first row up to the first blank line after it.
\<close>

definition isRow :: "jsstring \<Rightarrow> bool" where
  "isRow l = (pipeDelimited (trim l) \<and> \<not> isSeparator (trim l))"

definition isBlank :: "jsstring \<Rightarrow> bool" where
  "isBlank l = (trim l = [])"

definition tableRegion :: "jsstring list \<Rightarrow> jsstring list" where
  "tableRegion lines = takeWhile (\<lambda>l. \<not> isBlank l) (dropWhile (\<lambda>l. \<not> isRow l) lines)"

text \<open>
  \<open>contiguousBlock lines rows\<close>: the lines that give the rows form one contiguous block
  of the input in which every line starts and ends with a pipe, that is, the rows are
  the cells of the lines, separators left out, of \<open>n\<close> consecutive lines from some
  index \<open>i\<close> on, each of them pipe-delimited.
\<close>

definition contiguousBlock :: "jsstring list \<Rightarrow> jsstring list list \<Rightarrow> bool" where
  "contiguousBlock lines rows =
     list_ex (\<lambda>i. list_ex (\<lambda>n.
         let block = take n (drop i lines)
         in list_all (\<lambda>l. pipeDelimited (trim l)) block \<and>
            rows = map (\<lambda>l. cellsOf (trim l)) (filter isRow block))
       [0..<Suc (length lines)]) [0..<Suc (length lines)]"

section \<open>Data model\<close>

text \<open>
  Modelled from the spec: the type declarations of \<open>types.ts\<close> (\<open>FieldDefinition\<close>,
  \<open>ExtractedValue\<close>, \<open>DocumentResult\<close>, \<open>ReconcileResult\<close>) are not among the sources.
  The records have the fields the specification lists, with the types the code reads
  them at. A \<open>Blob\<close> is its bytes; a \<open>File\<close> is its MIME type and its bytes. An
  \<open>ExtractedValue\<close> has a text value or none, and a box
  \<open>[ymin, xmin, ymax, xmax]\<close> of integers or none. The status of a document is the
  string the code compares and writes to the sheet. \<open>doc.data\<close> is an object indexed
  by field key: a map, where a missing key reads as \<open>undefined\<close>.
  The fields \<open>id\<close>, \<open>file\<close>, \<open>type\<close> and \<open>value\<close> carry a prefix or a prime, since
  their plain names are taken in Isabelle; so does the \<open>text\<close> of a service response
  below.
\<close>

type_synonym blob = "nat list"

record File =
  type' :: jsstring
  content :: blob

record ExtractedValue =
  value' :: "jsstring option"
  box_2d :: "(int \<times> int \<times> int \<times> int) option"

record FieldDefinition =
  field_id :: jsstring
  key :: jsstring
  name :: jsstring
  color :: jsstring

record DocumentResult =
  doc_id :: jsstring
  fileName :: jsstring
  file' :: File
  status :: jsstring
  data :: "jsstring \<rightharpoonup> ExtractedValue"
  previewUrl :: "jsstring option"
  annotatedBlob :: "blob option"
  annotatedUrl :: "jsstring option"

text \<open>
  Modelled from the spec: a \<open>ReconcileResult\<close> has the report text, the executed
  code and the joined data, a parsed JSON value (of the type \<open>'j\<close>) or \<open>undefined\<close>.
\<close>

record 'j ReconcileResult =
  report :: jsstring
  code :: jsstring
  joinedData :: "'j option"

section \<open>Export packager: file names\<close>

text \<open>
  \<open>name.lastIndexOf(".")\<close>: the index of the last occurrence of a code unit, \<open>None\<close>
  for the \<open>-1\<close> of JavaScript.
\<close>

fun lastIndexOf :: "nat \<Rightarrow> jsstring \<Rightarrow> nat option" where
  "lastIndexOf c [] = None"
| "lastIndexOf c (x # xs) =
     (case lastIndexOf c xs of
        Some i \<Rightarrow> Some (Suc i)
      | None \<Rightarrow> if x = c then Some 0 else None)"

text \<open>
  \<^verbatim>\<open>lastDotIndex !== -1 ? name.substring(0, lastDotIndex) : name\<close> and
  \<^verbatim>\<open>lastDotIndex !== -1 ? name.substring(lastDotIndex) : ""\<close>; the full stop is
  code unit 46.
\<close>

definition baseOf :: "jsstring \<Rightarrow> jsstring" where
  "baseOf nm = (case lastIndexOf 46 nm of Some i \<Rightarrow> take i nm | None \<Rightarrow> nm)"

definition extOf :: "jsstring \<Rightarrow> jsstring" where
  "extOf nm = (case lastIndexOf 46 nm of Some i \<Rightarrow> drop i nm | None \<Rightarrow> [])"

text \<open>
  The template literal \<^verbatim>\<open>`${base}_${counter}${ext}`\<close> prints the counter, a positive
  integer, in decimal. The counter is a natural number here: it would take more than
  \<open>2^53\<close> documents for the JavaScript number to lose its exactness.
\<close>

fun decimal :: "nat \<Rightarrow> jsstring" where
  "decimal n = (if n < 10 then [48 + n] else decimal (n div 10) @ [48 + n mod 10])"

declare decimal.simps [simp del]

definition numbered :: "jsstring \<Rightarrow> jsstring \<Rightarrow> nat \<Rightarrow> jsstring" where
  "numbered base ext counter = base @ utf16 ''_'' @ decimal counter @ ext"

text \<open>
  The decimal numeral determines the number, so the candidates \<open>numbered base ext k\<close>
  are pairwise different. This is what makes the search for a free name terminate:
  only finitely many candidates are in use.
\<close>

definition digitsValue :: "jsstring \<Rightarrow> nat" where
  "digitsValue ds = foldl (\<lambda>a d. 10 * a + (d - 48)) 0 ds"

lemma digitsValue_decimal: "digitsValue (decimal n) = n"
proof (induction n rule: decimal.induct)
  case (1 n)
  show ?case
  proof (cases "n < 10")
    case True
    then show ?thesis by (subst decimal.simps) (simp add: digitsValue_def)
  next
    case False
    with 1 have "digitsValue (decimal (n div 10)) = n div 10" by simp
    with False show ?thesis
      by (subst decimal.simps) (simp add: digitsValue_def)
  qed
qed

lemma inj_decimal: "inj decimal"
  by (rule inj_on_inverseI [where g = digitsValue]) (rule digitsValue_decimal)

lemma inj_numbered: "inj (numbered base ext)"
  by (rule injI) (simp add: numbered_def inj_eq [OF inj_decimal])

lemma finite_numbered_used: "finite {k. numbered base ext k \<in> set used}"
  using finite_vimageI [OF finite_set [of used] inj_numbered [of base ext]]
  by (simp add: vimage_def)

text \<open>
  \<^verbatim>\<open>
  let counter = 1;
  let uniqueName = name;
  while (usedFilenames.has(uniqueName)) {
    uniqueName = `${base}_${counter}${ext}`;
    counter++;
  }\<close>
  The set \<open>usedFilenames\<close> is the list of its elements in insertion order.
\<close>

function uniqueNameLoop ::
  "jsstring list \<Rightarrow> jsstring \<Rightarrow> jsstring \<Rightarrow> nat \<Rightarrow> jsstring \<Rightarrow> jsstring" where
  "uniqueNameLoop used base ext counter uniqueName =
     (if uniqueName \<in> set used
      then uniqueNameLoop used base ext (counter + 1) (numbered base ext counter)
      else uniqueName)"
  by pat_completeness auto

text \<open>
  The measure of the loop: one for a current name that is in use, plus the number of
  candidates from the counter on that are in use.
\<close>

definition pendingNames :: "jsstring list \<Rightarrow> jsstring \<Rightarrow> jsstring \<Rightarrow> nat \<Rightarrow> jsstring \<Rightarrow> nat" where
  "pendingNames used base ext counter uniqueName =
     (if uniqueName \<in> set used then 1 else 0) +
     card {k. counter \<le> k \<and> numbered base ext k \<in> set used}"

lemma pendingNames_step:
  assumes "uniqueName \<in> set used"
  shows "pendingNames used base ext (counter + 1) (numbered base ext counter)
           < pendingNames used base ext counter uniqueName"
proof -
  let ?A = "{k. counter \<le> k \<and> numbered base ext k \<in> set used}"
  let ?B = "{k. counter + 1 \<le> k \<and> numbered base ext k \<in> set used}"
  have fin: "finite ?A" "finite ?B"
    using finite_numbered_used [of base ext used] by (auto intro: finite_subset [rotated])
  show ?thesis
  proof (cases "numbered base ext counter \<in> set used")
    case True
    then have "?A = insert counter ?B" by (auto simp: Suc_le_eq le_less)
    moreover have "counter \<notin> ?B" by simp
    ultimately have "card ?A = Suc (card ?B)" using fin by simp
    with True assms show ?thesis by (simp add: pendingNames_def)
  next
    case False
    then have "?A = ?B" by (auto simp: Suc_le_eq le_less)
    with False assms show ?thesis by (simp add: pendingNames_def)
  qed
qed

termination uniqueNameLoop
  by (relation "measure (\<lambda>(used, base, ext, counter, uniqueName).
        pendingNames used base ext counter uniqueName)")
     (use pendingNames_step in simp_all)

declare uniqueNameLoop.simps [simp del]


text \<open>
  A JavaScript object with string keys (the entries of a zip folder, a row of the
  sheet) is the list of its entries in insertion order; writing a key that exists
  replaces its value in place, writing a new key appends it.
\<close>

fun objSet :: "('k \<times> 'v) list \<Rightarrow> 'k \<Rightarrow> 'v \<Rightarrow> ('k \<times> 'v) list" where
  "objSet [] k v = [(k, v)]"
| "objSet (p # ps) k v = (if fst p = k then (k, v) # ps else p # objSet ps k v)"

text \<open>
  The state of the loop over the documents: the set \<open>usedFilenames\<close>, the map
  \<open>filenameMap\<close> from document id to resolved name, and the files of the zip folder.
\<close>

record exportFiles =
  usedFilenames :: "jsstring list"
  filenameMap :: "jsstring \<rightharpoonup> jsstring"
  docsFolder :: "(jsstring \<times> blob) list"

text \<open>
  \<^verbatim>\<open>
  let name = doc.fileName;
  if (doc.annotatedBlob) {
    const lastDotIndex = name.lastIndexOf(".");
    const base = lastDotIndex !== -1 ? name.substring(0, lastDotIndex) : name;
    name = `${base}_annotated.jpg`;
  }\<close>
\<close>

definition exportName :: "DocumentResult \<Rightarrow> jsstring" where
  "exportName doc =
     (case annotatedBlob doc of
        Some b \<Rightarrow> baseOf (fileName doc) @ utf16 ''_annotated.jpg''
      | None \<Rightarrow> fileName doc)"

text \<open>
  The body of \<^verbatim>\<open>documents.forEach(doc => ...)\<close>: find the unique name, add it to the
  set, record it under the document's id, and put the annotated blob (or the original
  file when there is none) into the folder under that name. \<open>zip.folder\<close> returns
  the folder object, so the guard \<open>if (docsFolder)\<close> holds.
\<close>

definition addDocument :: "exportFiles \<Rightarrow> DocumentResult \<Rightarrow> exportFiles" where
  "addDocument st doc =
     (let nm = exportName doc;
          base = baseOf nm;
          ext = extOf nm;
          uniqueName = uniqueNameLoop (usedFilenames st) base ext 1 nm
      in \<lparr> usedFilenames =
             (if uniqueName \<in> set (usedFilenames st) then usedFilenames st
              else usedFilenames st @ [uniqueName]),
           filenameMap = (filenameMap st)(doc_id doc \<mapsto> uniqueName),
           docsFolder =
             objSet (docsFolder st) uniqueName
               (case annotatedBlob doc of Some b \<Rightarrow> b | None \<Rightarrow> content (file' doc)) \<rparr>)"

definition resolveFilenames :: "DocumentResult list \<Rightarrow> exportFiles" where
  "resolveFilenames docs =
     foldl addDocument \<lparr> usedFilenames = [], filenameMap = Map.empty, docsFolder = [] \<rparr> docs"

section \<open>Reconciliation service\<close>

text \<open>
  A plain object is the list of its properties in the order in which JavaScript lists
  them (\<open>Object.keys\<close>, \<open>JSON.stringify\<close>): first the keys that are array indices, by
  ascending number, then the other keys in the order of their creation. An array index
  is the decimal numeral, without leading zero, of a number below \<open>2^32 - 1\<close>. Writing
  a property, \<open>obj[k] = v\<close>, replaces the value of a key that is there and puts a new
  key at its place in that order. (The files of the zip folder above are kept under
  names that begin with the folder name, never array indices, so \<open>objSet\<close> has their
  order.)
\<close>

definition isArrayIndex :: "jsstring \<Rightarrow> bool" where
  "isArrayIndex k =
     (k \<noteq> [] \<and> list_all isAsciiDigit k \<and> (hd k \<noteq> 48 \<or> k = [48]) \<and>
      digitsValue k < 4294967295)"

fun insertIndexed :: "(jsstring \<times> 'v) list \<Rightarrow> jsstring \<Rightarrow> 'v \<Rightarrow> (jsstring \<times> 'v) list" where
  "insertIndexed [] k v = [(k, v)]"
| "insertIndexed (p # ps) k v =
     (if isArrayIndex (fst p) \<and> digitsValue (fst p) < digitsValue k
      then p # insertIndexed ps k v
      else (k, v) # p # ps)"

definition propSet :: "(jsstring \<times> 'v) list \<Rightarrow> jsstring \<Rightarrow> 'v \<Rightarrow> (jsstring \<times> 'v) list" where
  "propSet obj k v =
     (if k \<in> fst ` set obj then map (\<lambda>p. if fst p = k then (k, v) else p) obj
      else if isArrayIndex k then insertIndexed obj k v
      else obj @ [(k, v)])"

text \<open>
  The key \<open>__proto__\<close> is the exception of JavaScript: assigning a string or \<open>null\<close> to
  it creates no property.
\<close>

definition rowSet :: "(jsstring \<times> 'v) list \<Rightarrow> jsstring \<Rightarrow> 'v \<Rightarrow> (jsstring \<times> 'v) list" where
  "rowSet obj k v = (if k = utf16 ''__proto__'' then obj else propSet obj k v)"















section \<open>Annotation renderer\<close>

text \<open>
  The numbers of JavaScript are IEEE 754 doubles. The renderer computes with them, and
  none of its decisions but the position of the label depends on a computed value, so
  the arithmetic is a parameter: the operations the renderer uses, on a type \<open>'n\<close> of
  numbers. \<open>fromInt\<close> is an integer as a number, \<open>decimalLit m e\<close> the literal
  \<open>m\<close> times ten to the \<open>-e\<close> (\<open>0.003\<close> is \<open>decimalLit 3 3\<close>).
\<close>

record 'n numberOps =
  fromInt :: "int \<Rightarrow> 'n"
  decimalLit :: "int \<Rightarrow> nat \<Rightarrow> 'n"
  plus' :: "'n \<Rightarrow> 'n \<Rightarrow> 'n"
  minus' :: "'n \<Rightarrow> 'n \<Rightarrow> 'n"
  times' :: "'n \<Rightarrow> 'n \<Rightarrow> 'n"
  divide' :: "'n \<Rightarrow> 'n \<Rightarrow> 'n"
  max' :: "'n \<Rightarrow> 'n \<Rightarrow> 'n"
  greater' :: "'n \<Rightarrow> 'n \<Rightarrow> bool"

text \<open>
  The calls on the 2D context, in the order they are made. \<open>SetFont n\<close> is the
  assignment of the font \<^verbatim>\<open>`bold ${n}px sans-serif`\<close>.
\<close>

datatype 'n canvasOp =
    SetLineWidth 'n
  | SetStrokeStyle jsstring
  | StrokeRect 'n 'n 'n 'n
  | SetFillStyle jsstring
  | FillRect 'n 'n 'n 'n
  | SetFont 'n
  | SetTextBaseline jsstring
  | FillText jsstring 'n 'n

record 'n Canvas =
  width :: 'n
  height :: 'n

text \<open>
  The drawing of one box, the body of \<^verbatim>\<open>if (extracted && extracted.box_2d) { ... }\<close>:
  \<^verbatim>\<open>
  const [ymin, xmin, ymax, xmax] = extracted.box_2d;
  const x = (xmin / 1000) * canvas.width;
  const y = (ymin / 1000) * canvas.height;
  const w = ((xmax - xmin) / 1000) * canvas.width;
  const h = ((ymax - ymin) / 1000) * canvas.height;
  ctx.lineWidth = Math.max(2, canvas.width * 0.003);
  ctx.strokeStyle = field.color;
  ctx.strokeRect(x, y, w, h);
  ctx.fillStyle = field.color + '20';
  ctx.fillRect(x, y, w, h);
  const fontSize = Math.max(12, canvas.width * 0.015);
  ctx.font = `bold ${fontSize}px sans-serif`;
  const text = field.name;
  const textMetrics = ctx.measureText(text);
  const padding = 4;
  const textW = textMetrics.width + padding * 2;
  const textH = fontSize + padding * 2;
  const labelY = y - textH > 0 ? y - textH : y;
  ctx.fillStyle = field.color;
  ctx.fillRect(x, labelY, textW, textH);
  ctx.fillStyle = 'white';
  ctx.textBaseline = 'top';
  ctx.fillText(text, x + padding, labelY + padding);\<close>
  \<open>measureText\<close> is the text width the browser reports for a font size and a text.
\<close>

definition drawBox ::
  "'n numberOps \<Rightarrow> ('n \<Rightarrow> jsstring \<Rightarrow> 'n) \<Rightarrow> 'n Canvas \<Rightarrow> FieldDefinition \<Rightarrow>
   int \<times> int \<times> int \<times> int \<Rightarrow> 'n canvasOp list" where
  "drawBox N measureText canvas field box =
     (case box of (ymin, xmin, ymax, xmax) \<Rightarrow>
        (let x = times' N (divide' N (fromInt N xmin) (fromInt N 1000)) (width canvas);
             y = times' N (divide' N (fromInt N ymin) (fromInt N 1000)) (height canvas);
             w = times' N (divide' N (minus' N (fromInt N xmax) (fromInt N xmin)) (fromInt N 1000))
                   (width canvas);
             h = times' N (divide' N (minus' N (fromInt N ymax) (fromInt N ymin)) (fromInt N 1000))
                   (height canvas);
             fontSize = max' N (fromInt N 12) (times' N (width canvas) (decimalLit N 15 3));
             padding = fromInt N 4;
             textW = plus' N (measureText fontSize (name field)) (times' N padding (fromInt N 2));
             textH = plus' N fontSize (times' N padding (fromInt N 2));
             labelY = (if greater' N (minus' N y textH) (fromInt N 0) then minus' N y textH else y)
         in [SetLineWidth (max' N (fromInt N 2) (times' N (width canvas) (decimalLit N 3 3))),
             SetStrokeStyle (color field),
             StrokeRect x y w h,
             SetFillStyle (color field @ utf16 ''20''),
             FillRect x y w h,
             SetFont fontSize,
             SetFillStyle (color field),
             FillRect x labelY textW textH,
             SetFillStyle (utf16 ''white''),
             SetTextBaseline (utf16 ''top''),
             FillText (name field) (plus' N x padding) (plus' N labelY padding)]))"

text \<open>
  The body of \<^verbatim>\<open>fields.forEach(field => ...)\<close>:
  \<^verbatim>\<open>
  const extracted = data[field.key];
  if (extracted && extracted.box_2d) { ... }\<close>
  A box, being an array, is truthy whenever it is there; no other test is made.
\<close>

definition drawField ::
  "'n numberOps \<Rightarrow> ('n \<Rightarrow> jsstring \<Rightarrow> 'n) \<Rightarrow> 'n Canvas \<Rightarrow> (jsstring \<rightharpoonup> ExtractedValue) \<Rightarrow>
   FieldDefinition \<Rightarrow> 'n canvasOp list" where
  "drawField N measureText canvas fieldData field =
     (case fieldData (key field) of
        None \<Rightarrow> []
      | Some extracted \<Rightarrow>
          (case box_2d extracted of
             None \<Rightarrow> []
           | Some box \<Rightarrow> drawBox N measureText canvas field box))"

text \<open>
  \<open>fileToCanvas\<close>: an image is decoded at its natural size, the first page of a PDF is
  rendered at the given scale, any other type is refused. Decoding, rendering and
  \<open>getContext('2d')\<close> belong to the browser and to the PDF library and may fail; they
  are the parameters \<open>decodeImage\<close> and \<open>renderPdf\<close>, \<open>None\<close> when they fail.
\<close>

datatype renderError = RenderingFailure | UnsupportedFileType | EncodingFailure

definition startsWith :: "jsstring \<Rightarrow> jsstring \<Rightarrow> bool" where
  "startsWith s pre = (take (length pre) s = pre)"

definition fileToCanvas ::
  "(File \<Rightarrow> 'n Canvas option) \<Rightarrow> (File \<Rightarrow> 'n \<Rightarrow> 'n Canvas option) \<Rightarrow> File \<Rightarrow> 'n \<Rightarrow>
   renderError + 'n Canvas" where
  "fileToCanvas decodeImage renderPdf srcFile pdfScale =
     (if startsWith (type' srcFile) (utf16 ''image/'') then
        (case decodeImage srcFile of None \<Rightarrow> Inl RenderingFailure | Some canvas \<Rightarrow> Inr canvas)
      else if type' srcFile = utf16 ''application/pdf'' then
        (case renderPdf srcFile pdfScale of
           None \<Rightarrow> Inl RenderingFailure
         | Some canvas \<Rightarrow> Inr canvas)
      else Inl UnsupportedFileType)"

text \<open>
  \<open>generateAnnotatedImage\<close>: the canvas at scale 2, the drawing of every field in
  order, and the JPEG encoding \<open>canvas.toBlob\<close> of the browser (the parameter
  \<open>toBlob\<close>, from the canvas and what was drawn on it; \<open>None\<close> for a null blob). The
  canvas that \<open>fileToCanvas\<close> returns has its 2D context, and \<open>getContext('2d')\<close>
  returns that context again, so the check \<open>if (!ctx)\<close> passes. The result is what
  was drawn and the blob; the object URL made for the blob is left out.
\<close>

definition generateAnnotatedImage ::
  "'n numberOps \<Rightarrow> ('n \<Rightarrow> jsstring \<Rightarrow> 'n) \<Rightarrow> (File \<Rightarrow> 'n Canvas option) \<Rightarrow>
   (File \<Rightarrow> 'n \<Rightarrow> 'n Canvas option) \<Rightarrow> ('n Canvas \<Rightarrow> 'n canvasOp list \<Rightarrow> blob option) \<Rightarrow>
   File \<Rightarrow> (jsstring \<rightharpoonup> ExtractedValue) \<Rightarrow> FieldDefinition list \<Rightarrow>
   renderError + ('n canvasOp list \<times> blob)" where
  "generateAnnotatedImage N measureText decodeImage renderPdf toBlob srcFile fieldData fields' =
     (case fileToCanvas decodeImage renderPdf srcFile (fromInt N 2) of
        Inl err \<Rightarrow> Inl err
      | Inr canvas \<Rightarrow>
          (let drawn = concat (map (drawField N measureText canvas fieldData) fields')
           in case toBlob canvas drawn of
                None \<Rightarrow> Inl EncodingFailure
              | Some b \<Rightarrow> Inr (drawn, b)))"

text \<open>
  The invariant of the specification for a box: \<open>0 \<le> ymin < ymax \<le> 1000\<close> and
  \<open>0 \<le> xmin < xmax \<le> 1000\<close>.
\<close>

definition validBox :: "int \<times> int \<times> int \<times> int \<Rightarrow> bool" where
  "validBox box =
     (case box of (ymin, xmin, ymax, xmax) \<Rightarrow>
        0 \<le> ymin \<and> ymin < ymax \<and> ymax \<le> 1000 \<and> 0 \<le> xmin \<and> xmin < xmax \<and> xmax \<le> 1000)"

text \<open>
  Exact rational arithmetic, one possible arithmetic, for the examples; and a text
  width of half the font size per code unit.
\<close>

definition exactOps :: "rat numberOps" where
  "exactOps =
     \<lparr> fromInt = of_int, decimalLit = (\<lambda>m e. of_int m / 10 ^ e), plus' = (+), minus' = (-),
       times' = (*), divide' = (/), max' = max, greater' = (\<lambda>a b. b < a) \<rparr>"

definition halfWidthMetrics :: "rat \<Rightarrow> jsstring \<Rightarrow> rat" where
  "halfWidthMetrics fontSize s = fontSize * of_nat (length s) / 2"

text \<open>
  The arithmetic of the code: IEEE 754 binary64 with rounding to nearest, ties to
  even. A double is a rational number; \<open>round64\<close> takes a rational to the nearest
  number with a significand of 53 bits, which is what every operation, the conversion
  of an integer and the reading of a decimal literal do with the exact result. The
  exponent of \<open>q > 0\<close> is the \<open>e\<close> with \<open>2^e \<le> q < 2^(e+1)\<close>, found from the number
  of binary digits of the integer part of \<open>q\<close> (below one: of \<open>1/q\<close> rounded up, less
  one; the ceiling is written with the floor); the last place of the significand is
  \<open>2^(e-52)\<close>. Overflow, subnormal numbers, infinities and NaN are left out:
  \<open>round64\<close> is the rounding of binary64 for magnitudes from \<open>2^-1022\<close> up to the
  largest double, and the renderer divides by 1000 only.
\<close>

fun bitLength :: "nat \<Rightarrow> nat" where
  "bitLength n = (if n = 0 then 0 else Suc (bitLength (n div 2)))"

declare bitLength.simps [simp del]

definition pow2 :: "int \<Rightarrow> rat" where
  "pow2 e = (if 0 \<le> e then 2 ^ nat e else 1 / 2 ^ nat (- e))"

definition exponentOf :: "rat \<Rightarrow> int" where
  "exponentOf q =
     (if 1 \<le> q then int (bitLength (nat \<lfloor>q\<rfloor>)) - 1
      else - int (bitLength (nat (- \<lfloor>- (1 / q)\<rfloor> - 1))))"

definition roundHalfEven :: "rat \<Rightarrow> int" where
  "roundHalfEven m =
     (let f = \<lfloor>m\<rfloor>; d = m - of_int f
      in if d < 1 / 2 then f else if 1 / 2 < d then f + 1 else if even f then f else f + 1)"

definition round64 :: "rat \<Rightarrow> rat" where
  "round64 q =
     (if q = 0 then 0
      else (let ulp = pow2 (exponentOf \<bar>q\<bar> - 52)
            in sgn q * of_int (roundHalfEven (\<bar>q\<bar> / ulp)) * ulp))"


section \<open>Export packager: the workbook and the archive\<close>

text \<open>
  A cell of a sheet: its text (\<open>v\<close>) and the target of its hyperlink (\<open>l.Target\<close>), if
  any. A sheet: its cells by row and column, the last row of its range (\<open>!ref\<close>), and
  the width of its first column (\<open>!cols\<close>), if set.
\<close>

record Cell =
  cellValue :: jsstring
  linkTarget :: "jsstring option"

record Worksheet =
  cells :: "nat \<times> nat \<rightharpoonup> Cell"
  lastRow :: nat
  firstColWidth :: "nat option"

type_synonym Workbook = "(jsstring \<times> Worksheet) list"

text \<open>
  \<open>XLSX.utils.json_to_sheet(rows, {header})\<close> of the SheetJS library, as its
  documentation describes it: row 0 holds the header, row \<open>R + 1\<close> holds the object
  \<open>rows[R]\<close>; the value of a key goes to the column where the key first occurs in the
  header, and a key that the header lacks is appended to the header. The keys of a row
  are taken in the order in which the object lists them.
\<close>

fun firstIndex :: "'a list \<Rightarrow> 'a \<Rightarrow> nat option" where
  "firstIndex [] k = None"
| "firstIndex (x # xs) k = (if x = k then Some 0 else map_option Suc (firstIndex xs k))"

definition sheetAddCell ::
  "nat \<Rightarrow> jsstring list \<times> (nat \<times> nat \<rightharpoonup> Cell) \<Rightarrow> jsstring \<times> jsstring \<Rightarrow>
   jsstring list \<times> (nat \<times> nat \<rightharpoonup> Cell)" where
  "sheetAddCell R st kv =
     (case st of (hdr, cs) \<Rightarrow>
        (case firstIndex hdr (fst kv) of
           Some C \<Rightarrow> (hdr, cs((R, C) \<mapsto> \<lparr> cellValue = snd kv, linkTarget = None \<rparr>))
         | None \<Rightarrow>
             (hdr @ [fst kv],
              cs((R, length hdr) \<mapsto> \<lparr> cellValue = snd kv, linkTarget = None \<rparr>))))"

text \<open>
  What one row object contributes to the cells of row \<open>R\<close> when every key is in the
  header: the column of a header entry holds the value of that key.
\<close>

definition rowCells ::
  "nat \<Rightarrow> jsstring list \<Rightarrow> (jsstring \<times> jsstring) list \<Rightarrow> (nat \<times> nat \<rightharpoonup> Cell) \<Rightarrow> (nat \<times> nat \<rightharpoonup> Cell)" where
  "rowCells R hdr row cs =
     (\<lambda>rc. if fst rc = R \<and> snd rc < length hdr \<and> map_of row (hdr ! snd rc) \<noteq> None
           then Some \<lparr> cellValue = the (map_of row (hdr ! snd rc)), linkTarget = None \<rparr>
           else cs rc)"

fun sheetAddRows ::
  "nat \<Rightarrow> jsstring list \<times> (nat \<times> nat \<rightharpoonup> Cell) \<Rightarrow> (jsstring \<times> jsstring) list list \<Rightarrow>
   jsstring list \<times> (nat \<times> nat \<rightharpoonup> Cell)" where
  "sheetAddRows R st [] = st"
| "sheetAddRows R st (row # rows) = sheetAddRows (Suc R) (foldl (sheetAddCell R) st row) rows"

definition json_to_sheet :: "(jsstring \<times> jsstring) list list \<Rightarrow> jsstring list \<Rightarrow> Worksheet" where
  "json_to_sheet js header =
     (case sheetAddRows 1 (header, Map.empty) js of (hdr, cs) \<Rightarrow>
        \<lparr> cells =
            (\<lambda>(r, c). if r = 0 \<and> c < length hdr
                       then Some \<lparr> cellValue = hdr ! c, linkTarget = None \<rparr>
                       else cs (r, c)),
          lastRow = length js,
          firstColWidth = None \<rparr>)"

text \<open>\<open>XLSX.utils.aoa_to_sheet\<close>: the cell at row \<open>r\<close>, column \<open>c\<close> is \<open>aoa[r][c]\<close>.\<close>

definition aoa_to_sheet :: "jsstring list list \<Rightarrow> Worksheet" where
  "aoa_to_sheet aoa =
     \<lparr> cells =
         (\<lambda>(r, c). if r < length aoa \<and> c < length (aoa ! r)
                    then Some \<lparr> cellValue = aoa ! r ! c, linkTarget = None \<rparr>
                    else None),
       lastRow = length aoa - 1,
       firstColWidth = None \<rparr>"

text \<open>
  The header and the rows of the audit sheet:
  \<^verbatim>\<open>
  const headers = ["File Name", "Status",
    ...fields.map(f => f.name), ...fields.map(f => `${f.name} (Coords)`)];
  const dataRows = documents.map(doc => {
    const row: Record<string, any> = {};
    row["File Name"] = doc.fileName;
    row["Status"] = doc.status;
    fields.forEach(field => {
      const extracted = doc.data[field.key];
      row[field.name] = extracted?.value || '';
      row[`${field.name} (Coords)`] =
        extracted?.box_2d ? JSON.stringify(extracted.box_2d) : '';
    });
    return row;
  });\<close>
  \<open>JSON.stringify\<close> of an array of four integers is their numerals between brackets,
  with commas. An integer below \<open>10^21\<close> in magnitude is printed in decimal; from
  \<open>10^21\<close> on JavaScript prints a number in exponent form (\<open>1e+21\<close>), from the digits
  of the double. That form is the parameter \<open>exponentForm\<close>.
\<close>

definition headers :: "FieldDefinition list \<Rightarrow> jsstring list" where
  "headers fields' =
     [utf16 ''File Name'', utf16 ''Status''] @ map name fields' @
     map (\<lambda>f. name f @ utf16 '' (Coords)'') fields'"

definition valueText :: "ExtractedValue option \<Rightarrow> jsstring" where
  "valueText extracted =
     (case extracted of
        None \<Rightarrow> []
      | Some e \<Rightarrow> (case value' e of None \<Rightarrow> [] | Some v \<Rightarrow> v))"

definition numberToString :: "(int \<Rightarrow> jsstring) \<Rightarrow> int \<Rightarrow> jsstring" where
  "numberToString exponentForm i =
     (if 10 ^ 21 \<le> \<bar>i\<bar> then exponentForm i
      else if i < 0 then utf16 ''-'' @ decimal (nat (- i))
      else decimal (nat i))"

definition stringifyBox :: "(int \<Rightarrow> jsstring) \<Rightarrow> int \<times> int \<times> int \<times> int \<Rightarrow> jsstring" where
  "stringifyBox exponentForm box =
     (case box of (ymin, xmin, ymax, xmax) \<Rightarrow>
        utf16 ''['' @ numberToString exponentForm ymin @ utf16 '','' @
        numberToString exponentForm xmin @ utf16 '','' @
        numberToString exponentForm ymax @ utf16 '','' @
        numberToString exponentForm xmax @ utf16 '']'')"

definition coordsText :: "(int \<Rightarrow> jsstring) \<Rightarrow> ExtractedValue option \<Rightarrow> jsstring" where
  "coordsText exponentForm extracted =
     (case extracted of
        None \<Rightarrow> []
      | Some e \<Rightarrow>
          (case box_2d e of None \<Rightarrow> [] | Some box \<Rightarrow> stringifyBox exponentForm box))"

definition dataRow ::
  "(int \<Rightarrow> jsstring) \<Rightarrow> FieldDefinition list \<Rightarrow> DocumentResult \<Rightarrow> (jsstring \<times> jsstring) list" where
  "dataRow exponentForm fields' doc =
     foldl (\<lambda>row field.
              rowSet (rowSet row (name field) (valueText (data doc (key field))))
                (name field @ utf16 '' (Coords)'')
                (coordsText exponentForm (data doc (key field))))
       (rowSet (rowSet [] (utf16 ''File Name'') (fileName doc)) (utf16 ''Status'') (status doc))
       fields'"

text \<open>
  The hyperlinks, one step of the loop over the rows of the sheet:
  \<^verbatim>\<open>
  for (let R = range.s.r + 1; R <= range.e.r; ++R) {
    const docIndex = R - 1;
    if (docIndex < documents.length) {
      const doc = documents[docIndex];
      const uniqueName = filenameMap.get(doc.id);
      if (uniqueName) {
        const cellRef = window.XLSX.utils.encode_cell({ c: 0, r: R });
        if (!worksheet[cellRef]) { worksheet[cellRef] = { t: 's', v: doc.fileName }; }
        worksheet[cellRef].l = { Target: `${folderName}/${uniqueName}` };
      }
    }
  }\<close>
  A name is truthy when it is there and not empty.
\<close>

definition folderName :: jsstring where
  "folderName = utf16 ''annotated_documents''"

definition addHyperlink ::
  "(jsstring \<rightharpoonup> jsstring) \<Rightarrow> DocumentResult list \<Rightarrow> (nat \<times> nat \<rightharpoonup> Cell) \<Rightarrow> nat \<Rightarrow>
   (nat \<times> nat \<rightharpoonup> Cell)" where
  "addHyperlink fnMap documents cs R =
     (let docIndex = R - 1 in
      if docIndex < length documents then
        (let doc = documents ! docIndex in
         case fnMap (doc_id doc) of
           None \<Rightarrow> cs
         | Some uniqueName \<Rightarrow>
             if uniqueName = [] then cs
             else
               (let target = folderName @ utf16 ''/'' @ uniqueName;
                    cell = (case cs (R, 0) of
                              None \<Rightarrow> \<lparr> cellValue = fileName doc, linkTarget = None \<rparr>
                            | Some c \<Rightarrow> c)
                in cs((R, 0) \<mapsto> cell \<lparr> linkTarget := Some target \<rparr>)))
      else cs)"

definition auditSheet ::
  "(int \<Rightarrow> jsstring) \<Rightarrow> FieldDefinition list \<Rightarrow> DocumentResult list \<Rightarrow> Worksheet" where
  "auditSheet exponentForm fields' documents =
     (let worksheet =
            json_to_sheet (map (dataRow exponentForm fields') documents) (headers fields')
      in worksheet \<lparr> cells :=
           foldl (addHyperlink (filenameMap (resolveFilenames documents)) documents)
             (cells worksheet) [1..<Suc (lastRow worksheet)] \<rparr>)"

text \<open>
  The sheets of a reconciliation result: the table of the report, if the extractor
  finds one, the report and the code, the last two with a first column of width 100.
\<close>

definition reconcileSheets :: "'j ReconcileResult option \<Rightarrow> Workbook" where
  "reconcileSheets reconcileResult =
     (case reconcileResult of
        None \<Rightarrow> []
      | Some rr \<Rightarrow>
          (case parseMarkdownTable (report rr) of
             None \<Rightarrow> []
           | Some parsedTable \<Rightarrow> [(utf16 ''Joined Data Details'', aoa_to_sheet parsedTable)]) @
          [(utf16 ''Analysis Report'',
            (aoa_to_sheet [[utf16 ''Analysis Report''], [report rr]])
              \<lparr> firstColWidth := Some 100 \<rparr>),
           (utf16 ''Python Code'',
            (aoa_to_sheet [[utf16 ''Executed Python Code''], [code rr]])
              \<lparr> firstColWidth := Some 100 \<rparr>)])"

text \<open>
  The environment of \<open>exportToZip\<close>: whether \<open>window.XLSX\<close> and \<open>window.JSZip\<close> are
  loaded, the serializer \<open>XLSX.write\<close> (\<open>None\<close> when it throws),
  \<open>zip.generateAsync\<close> (\<open>None\<close> when it rejects) and the exponent form in which
  JavaScript prints an integer from \<open>10^21\<close> on. The archive: the files of its folder
  \<open>annotated_documents\<close> and the files at its root.
\<close>

record ZipArchive =
  folderFiles :: "(jsstring \<times> blob) list"
  rootFiles :: "(jsstring \<times> blob) list"

record exportEnv =
  xlsxLoaded :: bool
  jszipLoaded :: bool
  xlsxWrite :: "Workbook \<Rightarrow> blob option"
  generateAsync :: "ZipArchive \<Rightarrow> blob option"
  exponentForm :: "int \<Rightarrow> jsstring"

text \<open>
  What a call of \<open>exportToZip\<close> does: what it writes to the console, the alerts it
  shows, the workbook and the archive it builds (\<open>None\<close> when none was created), the
  download it triggers (file name and content), and whether it ends by an exception.
\<close>

record exportOutcome =
  consoleErrors :: "jsstring list"
  alerts :: "jsstring list"
  workbook :: "Workbook option"
  archive :: "ZipArchive option"
  download :: "(jsstring \<times> blob) option"
  uncaught :: bool

definition exportToZip ::
  "exportEnv \<Rightarrow> FieldDefinition list \<Rightarrow> DocumentResult list \<Rightarrow> 'j ReconcileResult option \<Rightarrow>
   exportOutcome" where
  "exportToZip env fields' documents reconcileResult =
     (if \<not> xlsxLoaded env \<or> \<not> jszipLoaded env then
        \<lparr> consoleErrors = [utf16 ''Required libraries (SheetJS or JSZip) not loaded''],
          alerts = [utf16 ''Export libraries are still loading. Please try again in a moment.''],
          workbook = None, archive = None, download = None, uncaught = False \<rparr>
      else
        (let files = resolveFilenames documents;
             wb = [(utf16 ''Source Data (Tick)'',
                    auditSheet (exponentForm env) fields' documents)] @
                  reconcileSheets reconcileResult
         in case xlsxWrite env wb of
              None \<Rightarrow>
                \<lparr> consoleErrors = [], alerts = [], workbook = Some wb,
                  archive = Some \<lparr> folderFiles = docsFolder files, rootFiles = [] \<rparr>,
                  download = None, uncaught = True \<rparr>
            | Some excelBuffer \<Rightarrow>
                (let zip = \<lparr> folderFiles = docsFolder files,
                             rootFiles = [(utf16 ''Audit_Report.xlsx'', excelBuffer)] \<rparr>
                 in case generateAsync env zip of
                      None \<Rightarrow>
                        \<lparr> consoleErrors = [utf16 ''Failed to generate zip''],
                          alerts = [utf16 ''Failed to generate ZIP file.''],
                          workbook = Some wb, archive = Some zip, download = None,
                          uncaught = False \<rparr>
                    | Some zipContent \<Rightarrow>
                        \<lparr> consoleErrors = [], alerts = [], workbook = Some wb,
                          archive = Some zip,
                          download = Some (utf16 ''TickAndTie_Audit_Annotated.zip'', zipContent),
                          uncaught = False \<rparr>)))"

section \<open>Example inputs\<close>

text \<open>
  A PDF named \<open>a.pdf\<close> with an annotated image; a field \<open>Amount\<close> and the data of a
  document that has a value for it, with a given box or none; a reply of the
  reconciliation service whose tagged block holds text that is not JSON, with one code
  part; an environment in which JSZip has not finished loading; a field named like the
  first column of the audit sheet; the PDF with a value and a box for \<open>Amount\<close>.
\<close>

definition annotatedPdf :: DocumentResult where
  "annotatedPdf =
     \<lparr> doc_id = utf16 ''doc-1'', fileName = utf16 ''a.pdf'',
       file' = \<lparr> type' = utf16 ''application/pdf'', content = [37, 80, 68, 70] \<rparr>,
       status = utf16 ''success'', data = Map.empty, previewUrl = None,
       annotatedBlob = Some [255, 216, 255], annotatedUrl = None \<rparr>"

definition amountField :: FieldDefinition where
  "amountField =
     \<lparr> field_id = utf16 ''f1'', key = utf16 ''amount'', name = utf16 ''Amount'',
       color = utf16 ''#ef4444'' \<rparr>"

definition amountAt :: "(int \<times> int \<times> int \<times> int) option \<Rightarrow> (jsstring \<rightharpoonup> ExtractedValue)" where
  "amountAt box = [utf16 ''amount'' \<mapsto> \<lparr> value' = Some (utf16 ''12.50''), box_2d = box \<rparr>]"


definition librariesLoading :: exportEnv where
  "librariesLoading =
     \<lparr> xlsxLoaded = True, jszipLoaded = False, xlsxWrite = (\<lambda>wb. Some []),
       generateAsync = (\<lambda>zip. Some []), exponentForm = (\<lambda>i. utf16 ''1e+21'') \<rparr>"

definition fileNameField :: FieldDefinition where
  "fileNameField =
     \<lparr> field_id = utf16 ''f2'', key = utf16 ''file_name'', name = utf16 ''File Name'',
       color = utf16 ''#3b82f6'' \<rparr>"

definition invoicePdf :: DocumentResult where
  "invoicePdf = annotatedPdf \<lparr> data := amountAt (Some (100, 200, 300, 400)) \<rparr>"

section \<open>Sanitized field keys\<close>

lemma replaceNonAlnum_ascii: "list_all (\<lambda>c. c < 128) (replaceNonAlnum s)"
  by (induction s)
     (auto simp: replaceNonAlnum_def isAsciiLower_def isAsciiUpper_def isAsciiDigit_def)

lemma sanitizeKey_map:
  "sanitizeKey unicodeLower s = map asciiLower (replaceNonAlnum s)"
  by (simp add: sanitizeKey_def toLowerCase_def replaceNonAlnum_ascii)

lemma asciiLower_replace_charset:
  "c \<in> set (map asciiLower (replaceNonAlnum s)) \<Longrightarrow>
     isAsciiLower c \<or> isAsciiDigit c \<or> c = 95"
  by (auto simp: replaceNonAlnum_def asciiLower_def isAsciiLower_def isAsciiUpper_def
        isAsciiDigit_def split: if_splits)

lemma asciiLower_replace_fixed:
  "isAsciiLower c \<or> isAsciiDigit c \<or> c = 95 \<Longrightarrow>
     asciiLower (if isAsciiLower c \<or> isAsciiUpper c \<or> isAsciiDigit c then c else 95) = c"
  by (auto simp: asciiLower_def isAsciiLower_def isAsciiUpper_def isAsciiDigit_def)

lemma sanitized_fixed:
  "\<forall>c \<in> set xs. isAsciiLower c \<or> isAsciiDigit c \<or> c = 95 \<Longrightarrow>
     map asciiLower (replaceNonAlnum xs) = xs"
  unfolding replaceNonAlnum_def map_map
  by (rule map_idI) (simp add: asciiLower_replace_fixed)

text \<open>
  Claim C10. For every input string (and whatever the case mapping does outside
  ASCII), the key produced by \<open>sanitizeKey\<close> contains only lowercase ASCII letters,
  digits and underscores, and \<open>sanitizeKey\<close> applied to its own output returns that
  output unchanged.
\<close>

theorem sanitizeKey_charset_idempotent:
  "(\<forall>c \<in> set (sanitizeKey unicodeLower s). isAsciiLower c \<or> isAsciiDigit c \<or> c = 95) \<and>
   sanitizeKey unicodeLower (sanitizeKey unicodeLower s) = sanitizeKey unicodeLower s"
proof
  show "\<forall>c \<in> set (sanitizeKey unicodeLower s). isAsciiLower c \<or> isAsciiDigit c \<or> c = 95"
    using asciiLower_replace_charset by (simp only: sanitizeKey_map) blast
next
  have "map asciiLower (replaceNonAlnum (map asciiLower (replaceNonAlnum s))) =
        map asciiLower (replaceNonAlnum s)"
    by (rule sanitized_fixed) (use asciiLower_replace_charset in blast)
  then show "sanitizeKey unicodeLower (sanitizeKey unicodeLower s) =
        sanitizeKey unicodeLower s"
    by (simp only: sanitizeKey_map)
qed

theorem sanitizeKey_charset_idempotent_witness:
  "sanitizeKey (\<lambda>s. s) (utf16 ''Invoice No.'') = utf16 ''invoice_no_'' \<and>
   95 \<in> set (sanitizeKey (\<lambda>s. s) (utf16 ''Invoice No.'')) \<and>
   (isAsciiLower 95 \<or> isAsciiDigit 95 \<or> (95::nat) = 95) \<and>
   sanitizeKey (\<lambda>s. s) (sanitizeKey (\<lambda>s. s) (utf16 ''Invoice No.'')) =
     sanitizeKey (\<lambda>s. s) (utf16 ''Invoice No.'')"
  using sanitizeKey_charset_idempotent [of "\<lambda>s. s" "utf16 ''Invoice No.''"]
  by (simp add: sanitizeKey_def toLowerCase_def replaceNonAlnum_def asciiLower_def
      isAsciiLower_def isAsciiUpper_def isAsciiDigit_def utf16_def)

section \<open>Export packager: unique file names\<close>

lemma uniqueNameLoop_used:
  "uniqueName \<in> set used \<Longrightarrow>
     uniqueNameLoop used base ext counter uniqueName =
       uniqueNameLoop used base ext (counter + 1) (numbered base ext counter)"
  by (subst uniqueNameLoop.simps) simp

lemma uniqueNameLoop_free:
  "uniqueName \<notin> set used \<Longrightarrow> uniqueNameLoop used base ext counter uniqueName = uniqueName"
  by (subst uniqueNameLoop.simps) simp

lemma uniqueNameLoop_fresh: "uniqueNameLoop used base ext counter uniqueName \<notin> set used"
proof (induction used base ext counter uniqueName rule: uniqueNameLoop.induct)
  case (1 used base ext counter uniqueName)
  then show ?case
    by (cases "uniqueName \<in> set used") (simp_all add: uniqueNameLoop_used uniqueNameLoop_free)
qed

lemma uniqueNameLoop_numbered:
  "uniqueName \<in> set used \<Longrightarrow>
     \<exists>n\<ge>counter. uniqueNameLoop used base ext counter uniqueName = numbered base ext n \<and>
        (\<forall>m. counter \<le> m \<and> m < n \<longrightarrow> numbered base ext m \<in> set used)"
proof (induction used base ext counter uniqueName rule: uniqueNameLoop.induct)
  case (1 used base ext counter uniqueName)
  show ?case
  proof (cases "numbered base ext counter \<in> set used")
    case False
    with "1.prems" have "uniqueNameLoop used base ext counter uniqueName = numbered base ext counter"
      by (simp add: uniqueNameLoop_used uniqueNameLoop_free)
    then show ?thesis by (intro exI [of _ counter]) auto
  next
    case True
    from "1.IH" [OF "1.prems" True] obtain n where n: "counter + 1 \<le> n"
      "uniqueNameLoop used base ext (counter + 1) (numbered base ext counter) = numbered base ext n"
      "\<forall>m. counter + 1 \<le> m \<and> m < n \<longrightarrow> numbered base ext m \<in> set used"
      by blast
    have "\<forall>m. counter \<le> m \<and> m < n \<longrightarrow> numbered base ext m \<in> set used"
    proof (intro allI impI)
      fix m assume "counter \<le> m \<and> m < n"
      then show "numbered base ext m \<in> set used"
        using n(3) True by (cases "m = counter") auto
    qed
    with n "1.prems" show ?thesis
      by (intro exI [of _ n]) (auto simp: uniqueNameLoop_used)
  qed
qed


lemma objSet_new_key: "k \<notin> fst ` set ps \<Longrightarrow> map fst (objSet ps k v) = map fst ps @ [k]"
  by (induction ps) auto

lemma usedFilenames_addDocument:
  "usedFilenames (addDocument st doc) =
     usedFilenames st @
       [uniqueNameLoop (usedFilenames st) (baseOf (exportName doc)) (extOf (exportName doc)) 1
          (exportName doc)]"
  by (simp add: addDocument_def Let_def uniqueNameLoop_fresh)

lemma docsFolder_addDocument:
  "map fst (docsFolder st) = usedFilenames st \<Longrightarrow>
     map fst (docsFolder (addDocument st doc)) = usedFilenames (addDocument st doc)"
proof -
  assume inv: "map fst (docsFolder st) = usedFilenames st"
  let ?u = "uniqueNameLoop (usedFilenames st) (baseOf (exportName doc)) (extOf (exportName doc)) 1
          (exportName doc)"
  have "?u \<notin> fst ` set (docsFolder st)"
    using uniqueNameLoop_fresh [of "usedFilenames st"] inv [symmetric] by simp
  then have "map fst (objSet (docsFolder st) ?u
        (case annotatedBlob doc of Some b \<Rightarrow> b | None \<Rightarrow> content (file' doc))) =
      map fst (docsFolder st) @ [?u]"
    by (rule objSet_new_key)
  then show ?thesis
    by (simp add: addDocument_def Let_def uniqueNameLoop_fresh inv)
qed

lemma resolveFilenames_snoc:
  "resolveFilenames (docs @ [doc]) = addDocument (resolveFilenames docs) doc"
  by (simp add: resolveFilenames_def)

lemma resolveFilenames_invariant:
  "map fst (docsFolder (resolveFilenames docs)) = usedFilenames (resolveFilenames docs) \<and>
   length (usedFilenames (resolveFilenames docs)) = length docs \<and>
   distinct (usedFilenames (resolveFilenames docs))"
proof (induction docs rule: rev_induct)
  case Nil
  show ?case by (simp add: resolveFilenames_def)
next
  case (snoc doc docs)
  then show ?case
    by (simp add: resolveFilenames_snoc docsFolder_addDocument usedFilenames_addDocument
        uniqueNameLoop_fresh)
qed

lemma resolveFilenames_nth:
  "i < length docs \<Longrightarrow>
     take i (usedFilenames (resolveFilenames docs)) = usedFilenames (resolveFilenames (take i docs)) \<and>
     usedFilenames (resolveFilenames docs) ! i =
       uniqueNameLoop (usedFilenames (resolveFilenames (take i docs)))
         (baseOf (exportName (docs ! i))) (extOf (exportName (docs ! i))) 1 (exportName (docs ! i))"
proof (induction docs rule: rev_induct)
  case Nil
  then show ?case by simp
next
  case (snoc doc docs)
  have len: "length (usedFilenames (resolveFilenames docs)) = length docs"
    using resolveFilenames_invariant by blast
  show ?case
  proof (cases "i < length docs")
    case True
    with snoc.IH len show ?thesis
      by (simp add: resolveFilenames_snoc usedFilenames_addDocument nth_append)
  next
    case False
    with snoc.prems have "i = length docs" by simp
    with len show ?thesis
      by (simp add: resolveFilenames_snoc usedFilenames_addDocument nth_append)
  qed
qed





section \<open>Markdown table extractor: results\<close>

lemmas md_defs = parseMarkdownTable_def utf16_def trim_def isWhiteSpace_def pipeDelimited_def
  isSeparator_def cellsOf_def Let_def

lemma tableLoop_no_pipe:
  "\<forall>l \<in> set ls. \<not> pipeDelimited (trim l) \<Longrightarrow> tableLoop ls acc started = acc"
  by (induction ls arbitrary: started) (simp_all add: Let_def)

lemma tableLoop_started:
  "tableLoop ls acc True =
     acc @ map (\<lambda>l. cellsOf (trim l)) (filter isRow (takeWhile (\<lambda>l. \<not> isBlank l) ls))"
proof (induction ls arbitrary: acc)
  case Nil
  show ?case by simp
next
  case (Cons l ls)
  have "pipeDelimited (trim l) \<Longrightarrow> \<not> isBlank l"
    by (auto simp: pipeDelimited_def isBlank_def)
  with Cons show ?case
    by (auto simp: Let_def isRow_def isBlank_def)
qed

lemma tableLoop_not_started:
  "tableLoop ls acc False = acc @ map (\<lambda>l. cellsOf (trim l)) (filter isRow (tableRegion ls))"
proof (induction ls)
  case Nil
  show ?case by (simp add: tableRegion_def)
next
  case (Cons l ls)
  show ?case
  proof (cases "isRow l")
    case True
    then have nb: "\<not> isBlank l" by (auto simp: isRow_def pipeDelimited_def isBlank_def)
    from True nb show ?thesis
      by (simp add: Let_def tableRegion_def tableLoop_started) (simp add: isRow_def)
  next
    case False
    with Cons show ?thesis
      by (auto simp: Let_def tableRegion_def isRow_def)
  qed
qed

text \<open>
  Claim C4. On the text of the specification's example (a header row, a separator, a
  body row, a blank line, trailing text) the extractor returns the grid
  \<open>[["A","B"],["1","2"]]\<close>; and for every text none of whose lines, trimmed, starts
  and ends with a pipe, it returns \<open>null\<close>.
\<close>

theorem parseMarkdownTable_example_and_absent:
  "parseMarkdownTable
     (utf16 ''| A | B |\<newline>|---|---|\<newline>| 1 | 2 |\<newline>\<newline>Trailing text'') =
     Some [[utf16 ''A'', utf16 ''B''], [utf16 ''1'', utf16 ''2'']] \<and>
   ((\<forall>l \<in> set (splitOn 10 markdown). \<not> pipeDelimited (trim l)) \<longrightarrow>
      parseMarkdownTable markdown = None)"
proof
  show "parseMarkdownTable
     (utf16 ''| A | B |\<newline>|---|---|\<newline>| 1 | 2 |\<newline>\<newline>Trailing text'') =
     Some [[utf16 ''A'', utf16 ''B''], [utf16 ''1'', utf16 ''2'']]"
    by (simp add: md_defs)
next
  show "(\<forall>l \<in> set (splitOn 10 markdown). \<not> pipeDelimited (trim l)) \<longrightarrow>
      parseMarkdownTable markdown = None"
    by (simp add: parseMarkdownTable_def tableLoop_no_pipe)
qed

theorem parseMarkdownTable_absent_witness:
  "\<not> pipeDelimited (trim (utf16 ''Totals: 3 | 4'')) \<and>
   parseMarkdownTable (utf16 ''Totals: 3 | 4'') = None"
proof -
  have l: "splitOn 10 (utf16 ''Totals: 3 | 4'') = [utf16 ''Totals: 3 | 4'']"
    by (simp add: utf16_def)
  have n: "\<not> pipeDelimited (trim (utf16 ''Totals: 3 | 4''))"
    by (simp add: md_defs)
  from parseMarkdownTable_example_and_absent [of "utf16 ''Totals: 3 | 4''"] l n
  show ?thesis by simp
qed

text \<open>
  Claim C5, as the code has it. For every text, the rows are the cells of the lines
  that, trimmed, start and end with a pipe and are not separators, taken in order from
  the table region: from the first such line up to the first blank line after it. A
  line of the region that is neither a row nor blank (a separator, other text) gives no
  row and does not end the table; nothing after the blank line gives a row.
\<close>

theorem parseMarkdownTable_rows:
  "parseMarkdownTable markdown =
     (case map (\<lambda>l. cellsOf (trim l)) (filter isRow (tableRegion (splitOn 10 markdown))) of
        [] \<Rightarrow> None
      | row # rows \<Rightarrow> Some (row # rows))"
  by (simp add: parseMarkdownTable_def tableLoop_not_started split: list.split)

text \<open>
  Claim C5 as stated fails: the rows need not come from one contiguous block of
  pipe-delimited lines. With a line of other text between two rows, both rows are
  returned.
\<close>

theorem parseMarkdownTable_not_contiguous:
  "parseMarkdownTable (utf16 ''| A |\<newline>foo\<newline>| B |'') =
     Some [[utf16 ''A''], [utf16 ''B'']] \<and>
   \<not> contiguousBlock (splitOn 10 (utf16 ''| A |\<newline>foo\<newline>| B |''))
         [[utf16 ''A''], [utf16 ''B'']]"
proof -
  have l: "splitOn 10 (utf16 ''| A |\<newline>foo\<newline>| B |'') =
      [utf16 ''| A |'', utf16 ''foo'', utf16 ''| B |'']"
    by (simp add: utf16_def)
  have p: "pipeDelimited (trim (utf16 ''| A |''))" "\<not> pipeDelimited (trim (utf16 ''foo''))"
    "pipeDelimited (trim (utf16 ''| B |''))"
    by (simp_all add: md_defs)
  have s: "\<not> isSeparator (trim (utf16 ''| A |''))" "\<not> isSeparator (trim (utf16 ''| B |''))"
    by (simp_all add: md_defs)
  have c: "cellsOf (trim (utf16 ''| A |'')) = [utf16 ''A'']"
    "cellsOf (trim (utf16 ''| B |'')) = [utf16 ''B'']"
    by (simp_all add: md_defs)
  have t: "trim (utf16 ''foo'') \<noteq> []" by (simp add: md_defs)
  have "parseMarkdownTable (utf16 ''| A |\<newline>foo\<newline>| B |'') =
     Some [[utf16 ''A''], [utf16 ''B'']]"
    unfolding parseMarkdownTable_def l by (simp add: p s c t Let_def)
  moreover have "\<not> contiguousBlock (splitOn 10 (utf16 ''| A |\<newline>foo\<newline>| B |''))
         [[utf16 ''A''], [utf16 ''B'']]"
    unfolding l contiguousBlock_def
    by (simp add: upt_rec p s c isRow_def Let_def)
  ultimately show ?thesis ..
qed

section \<open>Reconciliation: malformed joined data\<close>



section \<open>Annotation renderer: which fields are drawn\<close>

lemma drawBox_length: "length (drawBox N measureText canvas field box) = 11"
  by (cases box) (simp add: drawBox_def Let_def)

lemma drawBox_nonempty: "drawBox N measureText canvas field box \<noteq> []"
  using drawBox_length [of N measureText canvas field box] by auto

text \<open>
  Claim C2, as the code has it. For every data mapping and every field, the renderer
  draws nothing for the field exactly when the field has no extracted value or its
  extracted value has no box; a box that is there is drawn from its coordinates (the
  eleven context calls of \<open>drawBox\<close>), whatever the coordinates are; and the renderer
  fails only when the canvas cannot be made or the image cannot be encoded, never
  because of a box.
\<close>

theorem drawField_skips_absent_only:
  "((drawField N measureText canvas fieldData field = []) =
      (fieldData (key field) = None \<or>
       (\<exists>extracted. fieldData (key field) = Some extracted \<and> box_2d extracted = None))) \<and>
   (\<forall>extracted box. fieldData (key field) = Some extracted \<and> box_2d extracted = Some box \<longrightarrow>
      drawField N measureText canvas fieldData field = drawBox N measureText canvas field box \<and>
      length (drawField N measureText canvas fieldData field) = 11) \<and>
   (\<forall>err. generateAnnotatedImage N measureText decodeImage renderPdf toBlob srcFile fieldData fields'
            = Inl err \<longrightarrow>
      fileToCanvas decodeImage renderPdf srcFile (fromInt N 2) = Inl err \<or>
      (err = EncodingFailure \<and> (\<exists>canvas drawn. toBlob canvas drawn = None)))"
proof (intro conjI allI impI)
  show "(drawField N measureText canvas fieldData field = []) =
      (fieldData (key field) = None \<or>
       (\<exists>extracted. fieldData (key field) = Some extracted \<and> box_2d extracted = None))"
    by (auto simp: drawField_def drawBox_nonempty split: option.splits)
next
  fix extracted box
  assume "fieldData (key field) = Some extracted \<and> box_2d extracted = Some box"
  then show "drawField N measureText canvas fieldData field = drawBox N measureText canvas field box"
    and "length (drawField N measureText canvas fieldData field) = 11"
    by (simp_all add: drawField_def drawBox_length)
next
  fix err
  assume "generateAnnotatedImage N measureText decodeImage renderPdf toBlob srcFile fieldData fields'
            = Inl err"
  then show "fileToCanvas decodeImage renderPdf srcFile (fromInt N 2) = Inl err \<or>
      (err = EncodingFailure \<and> (\<exists>canvas drawn. toBlob canvas drawn = None))"
    by (auto simp: generateAnnotatedImage_def Let_def split: sum.splits option.splits)
qed

theorem drawField_skips_absent_only_witness:
  "amountAt (Some (100, 200, 300, 400)) (key amountField) =
     Some \<lparr> value' = Some (utf16 ''12.50''), box_2d = Some (100, 200, 300, 400) \<rparr> \<and>
   drawField exactOps halfWidthMetrics \<lparr> width = 1000, height = 2000 \<rparr>
       (amountAt (Some (100, 200, 300, 400))) amountField =
     drawBox exactOps halfWidthMetrics \<lparr> width = 1000, height = 2000 \<rparr> amountField
       (100, 200, 300, 400) \<and>
   length (drawField exactOps halfWidthMetrics \<lparr> width = 1000, height = 2000 \<rparr>
       (amountAt (Some (100, 200, 300, 400))) amountField) = 11"
proof -
  have a: "amountAt (Some (100, 200, 300, 400)) (key amountField) =
     Some \<lparr> value' = Some (utf16 ''12.50''), box_2d = Some (100, 200, 300, 400) \<rparr>"
    by (simp add: amountAt_def amountField_def)
  have b: "box_2d \<lparr> value' = Some (utf16 ''12.50''), box_2d = Some (100, 200, 300, 400) \<rparr> =
      Some (100, 200, 300, 400)"
    by simp
  from drawField_skips_absent_only [of exactOps halfWidthMetrics
      "\<lparr> width = 1000, height = 2000 \<rparr>" "amountAt (Some (100, 200, 300, 400))" amountField,
      THEN conjunct2, THEN conjunct1, rule_format, OF conjI [OF a b]] a
  show ?thesis by blast
qed

text \<open>
  Claim C2 as stated fails: a box with \<open>ymin > ymax\<close> and \<open>xmin > xmax\<close> is not
  treated like an absent box. On a canvas of 1000 by 2000 a rectangle of negative size
  and its label are drawn, where nothing is drawn for the same field without a box.
\<close>

theorem drawField_draws_invalid_box:
  "\<not> validBox (500, 500, 100, 100) \<and>
   drawField exactOps halfWidthMetrics \<lparr> width = 1000, height = 2000 \<rparr>
       (amountAt (Some (500, 500, 100, 100))) amountField =
     [SetLineWidth 3, SetStrokeStyle (utf16 ''#ef4444''), StrokeRect 500 1000 (- 400) (- 800),
      SetFillStyle (utf16 ''#ef444420''), FillRect 500 1000 (- 400) (- 800), SetFont 15,
      SetFillStyle (utf16 ''#ef4444''), FillRect 500 977 53 23, SetFillStyle (utf16 ''white''),
      SetTextBaseline (utf16 ''top''), FillText (utf16 ''Amount'') 504 981] \<and>
   drawField exactOps halfWidthMetrics \<lparr> width = 1000, height = 2000 \<rparr> (amountAt None)
       amountField = []"
  by (simp add: validBox_def drawField_def drawBox_def amountAt_def amountField_def exactOps_def
      halfWidthMetrics_def utf16_def Let_def)

section \<open>Annotation renderer: the rectangle of a box\<close>

text \<open>Evaluating \<open>round64\<close> on numerals.\<close>

lemma floor_rat_numeral: "\<lfloor>(numeral a :: rat) / numeral b\<rfloor> = numeral a div numeral b"
  using floor_divide_of_int_eq [of "numeral a" "numeral b", where ?'a = rat] by simp

lemma floor_rat_minus_numeral:
  "\<lfloor>- ((numeral a :: rat) / numeral b)\<rfloor> = - numeral a div numeral b"
  using floor_divide_of_int_eq [of "- numeral a" "numeral b", where ?'a = rat] by simp

lemma bitLength_0: "bitLength 0 = 0"
  by (simp add: bitLength.simps)

lemma bitLength_numeral: "bitLength (numeral k) = Suc (bitLength (numeral k div 2))"
  by (subst bitLength.simps) simp

lemma bitLength_1: "bitLength (Suc 0) = Suc 0"
  by (simp add: bitLength.simps)

lemmas r64 = round64_def exponentOf_def pow2_def roundHalfEven_def bitLength_0 bitLength_numeral
  bitLength_1 Let_def floor_rat_numeral floor_rat_minus_numeral

text \<open>The double of the literal \<open>0.1\<close>, as a check of \<open>round64\<close>.\<close>

lemma round64_tenth: "round64 (1 / 10) = 3602879701896397 / 36028797018963968"
  by (simp add: r64)






section \<open>Export packager: the audit sheet\<close>

lemma map_of_replace_at:
  "map_of (map (\<lambda>p. if fst p = k then (k, v) else p) ps) x =
     (if x = k then (if k \<in> fst ` set ps then Some v else None) else map_of ps x)"
  by (induction ps) (force simp: image_iff)+

lemma map_of_replace:
  "k \<in> fst ` set ps \<Longrightarrow>
     map_of (map (\<lambda>p. if fst p = k then (k, v) else p) ps) = (map_of ps)(k \<mapsto> v)"
  by (rule ext) (simp add: map_of_replace_at)

lemma keys_replace: "map fst (map (\<lambda>p. if fst p = k then (k, v) else p) ps) = map fst ps"
  by (induction ps) auto

lemma keys_insertIndexed: "map fst (insertIndexed ps k v) \<in> {xs. set xs = insert k (fst ` set ps)}"
  by (induction ps) auto

lemma set_insertIndexed: "fst ` set (insertIndexed ps k v) = insert k (fst ` set ps)"
  using keys_insertIndexed [of ps k v] by simp

lemma map_of_insertIndexed:
  "k \<notin> fst ` set ps \<Longrightarrow> map_of (insertIndexed ps k v) = (map_of ps)(k \<mapsto> v)"
proof (induction ps)
  case Nil
  show ?case by simp
next
  case (Cons p ps)
  then show ?case by (cases p) (auto simp: fun_eq_iff)
qed

lemma distinct_insertIndexed:
  "k \<notin> fst ` set ps \<Longrightarrow> distinct (map fst ps) \<Longrightarrow> distinct (map fst (insertIndexed ps k v))"
proof (induction ps)
  case Nil
  show ?case by simp
next
  case (Cons p ps)
  have "fst p \<notin> fst ` set (insertIndexed ps k v)"
    using Cons.prems by (auto simp: set_insertIndexed)
  with Cons show ?case by auto
qed

lemma map_of_propSet: "map_of (propSet ps k v) = (map_of ps)(k \<mapsto> v)"
proof (cases "k \<in> fst ` set ps")
  case True
  then show ?thesis by (simp add: propSet_def map_of_replace)
next
  case False
  then have "map_of ps k = None" by (simp add: map_of_eq_None_iff)
  with False show ?thesis
    by (auto simp: propSet_def map_of_insertIndexed fun_eq_iff map_add_def split: option.split)
qed

lemma keys_propSet: "fst ` set (propSet ps k v) = insert k (fst ` set ps)"
proof (cases "k \<in> fst ` set ps")
  case True
  have "fst ` set (map (\<lambda>p. if fst p = k then (k, v) else p) ps) = fst ` set ps"
    using keys_replace [of k v ps] by (metis set_map)
  with True show ?thesis by (auto simp: propSet_def)
next
  case False
  then show ?thesis by (auto simp: propSet_def set_insertIndexed)
qed

lemma distinct_propSet: "distinct (map fst ps) \<Longrightarrow> distinct (map fst (propSet ps k v))"
proof (cases "k \<in> fst ` set ps")
  case True
  assume "distinct (map fst ps)"
  with True show ?thesis by (simp add: propSet_def keys_replace del: map_map)
next
  case False
  assume "distinct (map fst ps)"
  with False show ?thesis by (auto simp: propSet_def distinct_insertIndexed)
qed

lemma coords_not_proto: "nm @ utf16 '' (Coords)'' \<noteq> utf16 ''__proto__''"
proof
  assume "nm @ utf16 '' (Coords)'' = utf16 ''__proto__''"
  then have "last (nm @ utf16 '' (Coords)'') = last (utf16 ''__proto__'')" by simp
  then show False by (simp add: utf16_def)
qed

lemma coords_not_name: "nm @ utf16 '' (Coords)'' \<noteq> nm"
  by (simp add: utf16_def)

lemma dataRow_snoc:
  "dataRow bigNum (fs @ [f]) doc =
     rowSet (rowSet (dataRow bigNum fs doc) (name f) (valueText (data doc (key f))))
       (name f @ utf16 '' (Coords)'') (coordsText bigNum (data doc (key f)))"
  by (simp add: dataRow_def)

lemma headers_snoc_set:
  "set (headers (fs @ [f])) = insert (name f) (insert (name f @ utf16 '' (Coords)'') (set (headers fs)))"
  by (auto simp: headers_def)

lemma dataRow_keys:
  "\<forall>f \<in> set fs. name f \<noteq> utf16 ''__proto__'' \<Longrightarrow>
     fst ` set (dataRow bigNum fs doc) = set (headers fs) \<and> distinct (map fst (dataRow bigNum fs doc))"
proof (induction fs rule: rev_induct)
  case Nil
  show ?case
    by (simp add: dataRow_def headers_def rowSet_def propSet_def isArrayIndex_def isAsciiDigit_def
        utf16_def)
next
  case (snoc f fs)
  then have IH: "fst ` set (dataRow bigNum fs doc) = set (headers fs)" "distinct (map fst (dataRow bigNum fs doc))"
    and np: "name f \<noteq> utf16 ''__proto__''"
    by simp_all
  show ?case
    unfolding dataRow_snoc headers_snoc_set
    using IH np by (auto simp: rowSet_def coords_not_proto keys_propSet intro!: distinct_propSet)
qed

lemma distinct_headers_snoc:
  assumes "distinct (headers (fs @ [f]))"
  shows "distinct (headers fs)"
    and "name f \<notin> set (headers fs)"
    and "name f @ utf16 '' (Coords)'' \<notin> set (headers fs)"
  using assms by (auto simp: headers_def)

lemma dataRow_lookup:
  assumes "distinct (headers fs)" and "\<forall>f \<in> set fs. name f \<noteq> utf16 ''__proto__''"
  shows "map_of (dataRow bigNum fs doc) (utf16 ''File Name'') = Some (fileName doc) \<and>
     map_of (dataRow bigNum fs doc) (utf16 ''Status'') = Some (status doc) \<and>
     (\<forall>j<length fs.
        map_of (dataRow bigNum fs doc) (name (fs ! j)) = Some (valueText (data doc (key (fs ! j)))) \<and>
        map_of (dataRow bigNum fs doc) (name (fs ! j) @ utf16 '' (Coords)'') =
          Some (coordsText bigNum (data doc (key (fs ! j)))))"
  using assms
proof (induction fs rule: rev_induct)
  case Nil
  show ?case
    by (simp add: dataRow_def rowSet_def propSet_def isArrayIndex_def isAsciiDigit_def utf16_def)
next
  case (snoc f fs)
  note d = distinct_headers_snoc [OF snoc.prems(1)]
  from snoc.prems(2) have np: "name f \<noteq> utf16 ''__proto__''"
    and np': "\<forall>f \<in> set fs. name f \<noteq> utf16 ''__proto__''"
    by simp_all
  note IH = snoc.IH [OF d(1) np']
  have m: "map_of (dataRow bigNum (fs @ [f]) doc) =
      (map_of (dataRow bigNum fs doc))(name f \<mapsto> valueText (data doc (key f)),
         name f @ utf16 '' (Coords)'' \<mapsto> coordsText bigNum (data doc (key f)))"
    by (simp add: dataRow_snoc rowSet_def np coords_not_proto map_of_propSet)
  have fn: "utf16 ''File Name'' \<in> set (headers fs)" "utf16 ''Status'' \<in> set (headers fs)"
    by (simp_all add: headers_def)
  have old: "j < length fs \<Longrightarrow> name (fs ! j) \<in> set (headers fs) \<and>
      name (fs ! j) @ utf16 '' (Coords)'' \<in> set (headers fs)" for j
    by (simp add: headers_def)
  show ?case
  proof (intro conjI allI impI)
    show "map_of (dataRow bigNum (fs @ [f]) doc) (utf16 ''File Name'') = Some (fileName doc)"
      using IH fn d by (auto simp: m)
    show "map_of (dataRow bigNum (fs @ [f]) doc) (utf16 ''Status'') = Some (status doc)"
      using IH fn d by (auto simp: m)
  next
    fix j assume j: "j < length (fs @ [f])"
    show "map_of (dataRow bigNum (fs @ [f]) doc) (name ((fs @ [f]) ! j)) =
        Some (valueText (data doc (key ((fs @ [f]) ! j))))"
    proof (cases "j < length fs")
      case True
      with IH old [OF True] d show ?thesis by (auto simp: m nth_append)
    next
      case False
      with j have "j = length fs" by simp
      then show ?thesis by (simp add: m nth_append utf16_def)
    qed
    show "map_of (dataRow bigNum (fs @ [f]) doc) (name ((fs @ [f]) ! j) @ utf16 '' (Coords)'') =
        Some (coordsText bigNum (data doc (key ((fs @ [f]) ! j))))"
    proof (cases "j < length fs")
      case True
      with IH old [OF True] d show ?thesis by (auto simp: m nth_append)
    next
      case False
      with j have "j = length fs" by simp
      then show ?thesis by (simp add: m nth_append)
    qed
  qed
qed


lemma firstIndex_member:
  "k \<in> set hdr \<Longrightarrow> \<exists>C. firstIndex hdr k = Some C \<and> C < length hdr \<and> hdr ! C = k"
  by (induction hdr) auto

lemma foldl_sheetAddCell:
  assumes "distinct hdr"
  shows "fst ` set row \<subseteq> set hdr \<Longrightarrow> distinct (map fst row) \<Longrightarrow>
     foldl (sheetAddCell R) (hdr, cs) row = (hdr, rowCells R hdr row cs)"
proof (induction row arbitrary: cs)
  case Nil
  show ?case by (simp add: rowCells_def)
next
  case (Cons kv row)
  obtain k v where kv: "kv = (k, v)" by (cases kv)
  from Cons.prems kv have "k \<in> set hdr" by simp
  from firstIndex_member [OF this] obtain C where C: "firstIndex hdr k = Some C"
    "C < length hdr" "hdr ! C = k" by blast
  have step: "sheetAddCell R (hdr, cs) kv =
      (hdr, cs((R, C) \<mapsto> \<lparr> cellValue = v, linkTarget = None \<rparr>))"
    by (simp add: sheetAddCell_def kv C)
  from Cons.prems kv have fresh: "map_of row k = None"
    by (simp add: map_of_eq_None_iff)
  have eq: "rowCells R hdr row (cs((R, C) \<mapsto> \<lparr> cellValue = v, linkTarget = None \<rparr>)) =
      rowCells R hdr (kv # row) cs"
  proof (rule ext)
    fix rc :: "nat \<times> nat"
    show "rowCells R hdr row (cs((R, C) \<mapsto> \<lparr> cellValue = v, linkTarget = None \<rparr>)) rc =
        rowCells R hdr (kv # row) cs rc"
    proof (cases "fst rc = R \<and> snd rc < length hdr")
      case False
      with C(2) have "rc \<noteq> (R, C)" by auto
      with False show ?thesis by (auto simp: rowCells_def)
    next
      case True
      show ?thesis
      proof (cases "snd rc = C")
        case True
        with \<open>fst rc = R \<and> snd rc < length hdr\<close> have "rc = (R, C)" by (cases rc) simp
        then show ?thesis by (simp add: rowCells_def kv C fresh)
      next
        case False
        with True C assms have "hdr ! snd rc \<noteq> k"
          by (auto simp: nth_eq_iff_index_eq)
        moreover from False have "rc \<noteq> (R, C)" by auto
        ultimately show ?thesis by (auto simp: rowCells_def kv)
      qed
    qed
  qed
  from Cons.prems have row: "fst ` set row \<subseteq> set hdr" "distinct (map fst row)"
    by simp_all
  have "foldl (sheetAddCell R) (hdr, cs) (kv # row) =
      foldl (sheetAddCell R) (sheetAddCell R (hdr, cs) kv) row"
    by simp
  also have "\<dots> = foldl (sheetAddCell R)
      (hdr, cs((R, C) \<mapsto> \<lparr> cellValue = v, linkTarget = None \<rparr>)) row"
    by (simp only: step)
  also have "\<dots> = (hdr, rowCells R hdr row (cs((R, C) \<mapsto> \<lparr> cellValue = v, linkTarget = None \<rparr>)))"
    by (rule Cons.IH [OF row])
  also have "\<dots> = (hdr, rowCells R hdr (kv # row) cs)"
    by (simp only: eq)
  finally show ?case .
qed

lemma sheetAddRows_cells:
  assumes "distinct hdr"
  shows "\<forall>row \<in> set rows. fst ` set row \<subseteq> set hdr \<and> distinct (map fst row) \<Longrightarrow>
     \<exists>cs'. sheetAddRows R (hdr, cs) rows = (hdr, cs') \<and>
       (\<forall>r c. cs' (r, c) =
          (if R \<le> r \<and> r < R + length rows \<and> c < length hdr \<and>
              map_of (rows ! (r - R)) (hdr ! c) \<noteq> None
           then Some \<lparr> cellValue = the (map_of (rows ! (r - R)) (hdr ! c)), linkTarget = None \<rparr>
           else cs (r, c)))"
proof (induction rows arbitrary: R cs)
  case Nil
  show ?case by auto
next
  case (Cons row rows)
  from Cons.prems have row: "fst ` set row \<subseteq> set hdr" "distinct (map fst row)"
    and rest: "\<forall>row \<in> set rows. fst ` set row \<subseteq> set hdr \<and> distinct (map fst row)"
    by simp_all
  from Cons.IH [OF rest, of "Suc R" "rowCells R hdr row cs"]
  obtain cs' where cs': "sheetAddRows (Suc R) (hdr, rowCells R hdr row cs) rows = (hdr, cs')"
    "\<forall>r c. cs' (r, c) =
          (if Suc R \<le> r \<and> r < Suc R + length rows \<and> c < length hdr \<and>
              map_of (rows ! (r - Suc R)) (hdr ! c) \<noteq> None
           then Some \<lparr> cellValue = the (map_of (rows ! (r - Suc R)) (hdr ! c)), linkTarget = None \<rparr>
           else rowCells R hdr row cs (r, c))"
    by blast
  have "sheetAddRows R (hdr, cs) (row # rows) = (hdr, cs')"
    by (simp add: foldl_sheetAddCell [OF assms row] cs'(1))
  moreover have "cs' (r, c) =
          (if R \<le> r \<and> r < R + length (row # rows) \<and> c < length hdr \<and>
              map_of ((row # rows) ! (r - R)) (hdr ! c) \<noteq> None
           then Some \<lparr> cellValue = the (map_of ((row # rows) ! (r - R)) (hdr ! c)),
                       linkTarget = None \<rparr>
           else cs (r, c))" for r c
  proof (cases "Suc R \<le> r")
    case True
    then have "r - R = Suc (r - Suc R)" by simp
    with True show ?thesis by (auto simp: cs'(2) rowCells_def)
  next
    case False
    then show ?thesis by (auto simp: cs'(2) rowCells_def)
  qed
  ultimately show ?case by blast
qed

lemma json_to_sheet_cell:
  assumes "distinct hdr"
    and "\<forall>row \<in> set rows. fst ` set row \<subseteq> set hdr \<and> distinct (map fst row)"
  shows "lastRow (json_to_sheet rows hdr) = length rows"
    and "cells (json_to_sheet rows hdr) (r, c) =
      (if r = 0 \<and> c < length hdr then Some \<lparr> cellValue = hdr ! c, linkTarget = None \<rparr>
       else if 1 \<le> r \<and> r \<le> length rows \<and> c < length hdr \<and>
               map_of (rows ! (r - 1)) (hdr ! c) \<noteq> None
       then Some \<lparr> cellValue = the (map_of (rows ! (r - 1)) (hdr ! c)), linkTarget = None \<rparr>
       else None)"
proof -
  from sheetAddRows_cells [OF assms, of "Suc 0" Map.empty]
  obtain cs' where cs': "sheetAddRows (Suc 0) (hdr, Map.empty) rows = (hdr, cs')"
    "\<forall>r c. cs' (r, c) =
          (if Suc 0 \<le> r \<and> r < Suc 0 + length rows \<and> c < length hdr \<and>
              map_of (rows ! (r - Suc 0)) (hdr ! c) \<noteq> None
           then Some \<lparr> cellValue = the (map_of (rows ! (r - Suc 0)) (hdr ! c)),
                       linkTarget = None \<rparr>
           else None)"
    by blast
  show "lastRow (json_to_sheet rows hdr) = length rows"
    by (simp add: json_to_sheet_def cs'(1))
  show "cells (json_to_sheet rows hdr) (r, c) =
      (if r = 0 \<and> c < length hdr then Some \<lparr> cellValue = hdr ! c, linkTarget = None \<rparr>
       else if 1 \<le> r \<and> r \<le> length rows \<and> c < length hdr \<and>
               map_of (rows ! (r - 1)) (hdr ! c) \<noteq> None
       then Some \<lparr> cellValue = the (map_of (rows ! (r - 1)) (hdr ! c)), linkTarget = None \<rparr>
       else None)"
    using cs'(2) by (auto simp: json_to_sheet_def cs'(1))
qed


lemma addHyperlink_other:
  "rc \<noteq> (R, 0) \<Longrightarrow> addHyperlink fnMap documents cs R rc = cs rc"
  by (simp add: addHyperlink_def Let_def split: option.split)

lemma addHyperlink_same:
  "cs (R, 0) = cs' (R, 0) \<Longrightarrow>
     addHyperlink fnMap documents cs R (R, 0) = addHyperlink fnMap documents cs' R (R, 0)"
  by (simp add: addHyperlink_def Let_def split: option.split)

lemma addHyperlinks_cells:
  "foldl (addHyperlink fnMap documents) cs [1..<Suc n] (r, c) =
     (if c = 0 \<and> 1 \<le> r \<and> r \<le> n then addHyperlink fnMap documents cs r (r, 0) else cs (r, c))"
proof (induction n arbitrary: r c)
  case 0
  show ?case by auto
next
  case (Suc n)
  let ?prev = "foldl (addHyperlink fnMap documents) cs [1..<Suc n]"
  have step: "foldl (addHyperlink fnMap documents) cs [1..<Suc (Suc n)] =
      addHyperlink fnMap documents ?prev (Suc n)"
    by simp
  have prev: "?prev (r', c') =
      (if c' = 0 \<and> 1 \<le> r' \<and> r' \<le> n then addHyperlink fnMap documents cs r' (r', 0)
       else cs (r', c'))" for r' c'
    by (rule Suc.IH)
  show ?case
  proof (cases "(r, c) = (Suc n, 0)")
    case True
    have "?prev (Suc n, 0) = cs (Suc n, 0)"
      by (simp only: prev) simp
    then have "addHyperlink fnMap documents ?prev (Suc n) (Suc n, 0) =
        addHyperlink fnMap documents cs (Suc n) (Suc n, 0)"
      by (rule addHyperlink_same)
    with True show ?thesis by (simp only: step) simp
  next
    case False
    have "foldl (addHyperlink fnMap documents) cs [1..<Suc (Suc n)] (r, c) = ?prev (r, c)"
      by (simp only: step addHyperlink_other [OF False])
    also have "\<dots> = (if c = 0 \<and> 1 \<le> r \<and> r \<le> n
        then addHyperlink fnMap documents cs r (r, 0) else cs (r, c))"
      by (rule prev)
    also have "\<dots> = (if c = 0 \<and> 1 \<le> r \<and> r \<le> Suc n
        then addHyperlink fnMap documents cs r (r, 0) else cs (r, c))"
      using False by (auto simp: le_Suc_eq)
    finally show ?thesis .
  qed
qed

lemma addHyperlink_linked:
  assumes "1 \<le> R" and "R - 1 < length documents"
    and "fnMap (doc_id (documents ! (R - 1))) = Some uniqueName" and "uniqueName \<noteq> []"
    and "cs (R, 0) = Some cell"
  shows "addHyperlink fnMap documents cs R (R, 0) =
     Some (cell \<lparr> linkTarget := Some (folderName @ utf16 ''/'' @ uniqueName) \<rparr>)"
  using assms by (simp add: addHyperlink_def Let_def)

lemma filenameMap_addDocument:
  "filenameMap (addDocument st doc) =
     (filenameMap st)(doc_id doc \<mapsto>
        uniqueNameLoop (usedFilenames st) (baseOf (exportName doc)) (extOf (exportName doc)) 1
          (exportName doc))"
  by (simp add: addDocument_def Let_def)

lemma filenameMap_resolved:
  "distinct (map doc_id docs) \<Longrightarrow> i < length docs \<Longrightarrow>
     filenameMap (resolveFilenames docs) (doc_id (docs ! i)) =
       Some (usedFilenames (resolveFilenames docs) ! i)"
proof (induction docs rule: rev_induct)
  case Nil
  then show ?case by simp
next
  case (snoc doc docs)
  have len: "length (usedFilenames (resolveFilenames docs)) = length docs"
    using resolveFilenames_invariant by blast
  show ?case
  proof (cases "i < length docs")
    case True
    then have "doc_id (docs ! i) \<in> doc_id ` set docs" by simp
    moreover from snoc.prems have "doc_id doc \<notin> doc_id ` set docs" by simp
    ultimately have "doc_id (docs ! i) \<noteq> doc_id doc" by metis
    with True snoc len show ?thesis
      by (simp add: resolveFilenames_snoc filenameMap_addDocument usedFilenames_addDocument
          nth_append)
  next
    case False
    with snoc.prems have "i = length docs" by simp
    with len show ?thesis
      by (simp add: resolveFilenames_snoc filenameMap_addDocument usedFilenames_addDocument
          nth_append)
  qed
qed

lemma numbered_nonempty: "numbered base ext n \<noteq> []"
  by (simp add: numbered_def utf16_def)

lemma uniqueNameLoop_nonempty:
  "uniqueName \<noteq> [] \<Longrightarrow> uniqueNameLoop used base ext counter uniqueName \<noteq> []"
proof (cases "uniqueName \<in> set used")
  case True
  from uniqueNameLoop_numbered [OF True, of counter base ext]
  show ?thesis by (metis numbered_nonempty)
next
  case False
  assume "uniqueName \<noteq> []"
  with False show ?thesis by (simp add: uniqueNameLoop_free)
qed

lemma exportName_nonempty:
  "annotatedBlob doc \<noteq> None \<or> fileName doc \<noteq> [] \<Longrightarrow> exportName doc \<noteq> []"
  by (auto simp: exportName_def utf16_def split: option.splits)

lemma resolved_nonempty:
  assumes "\<forall>d \<in> set docs. annotatedBlob d \<noteq> None \<or> fileName d \<noteq> []" and "i < length docs"
  shows "usedFilenames (resolveFilenames docs) ! i \<noteq> []"
proof -
  from assms have "exportName (docs ! i) \<noteq> []"
    by (intro exportName_nonempty) simp
  then show ?thesis
    using resolveFilenames_nth [OF assms(2)] by (simp add: uniqueNameLoop_nonempty)
qed


lemma headers_nth:
  shows "length (headers fs) = 2 + 2 * length fs"
    and "headers fs ! 0 = utf16 ''File Name''"
    and "headers fs ! Suc 0 = utf16 ''Status''"
    and "j < length fs \<Longrightarrow> headers fs ! (2 + j) = name (fs ! j)"
    and "j < length fs \<Longrightarrow> headers fs ! (2 + length fs + j) = name (fs ! j) @ utf16 '' (Coords)''"
proof -
  show "length (headers fs) = 2 + 2 * length fs" "headers fs ! 0 = utf16 ''File Name''"
    "headers fs ! Suc 0 = utf16 ''Status''"
    by (simp_all add: headers_def)
  have h: "headers fs = utf16 ''File Name'' # utf16 ''Status'' #
      (map name fs @ map (\<lambda>f. name f @ utf16 '' (Coords)'') fs)"
    by (simp add: headers_def)
  show "j < length fs \<Longrightarrow> headers fs ! (2 + j) = name (fs ! j)"
    by (simp add: h nth_append)
  show "j < length fs \<Longrightarrow> headers fs ! (2 + length fs + j) = name (fs ! j) @ utf16 '' (Coords)''"
    by (simp add: h nth_append)
qed

lemma headers_nth_Suc:
  shows "j < length fs \<Longrightarrow> headers fs ! Suc (Suc j) = name (fs ! j)"
    and "j < length fs \<Longrightarrow>
      headers fs ! Suc (Suc (length fs + j)) = name (fs ! j) @ utf16 '' (Coords)''"
  using headers_nth(4,5) [of j fs] by simp_all

lemma auditSheet_sheet:
  assumes "distinct (headers fs)" and "\<forall>f \<in> set fs. name f \<noteq> utf16 ''__proto__''"
  shows "lastRow (auditSheet bigNum fs docs) = length docs"
    and "cells (auditSheet bigNum fs docs) (r, c) =
      (if c = 0 \<and> 1 \<le> r \<and> r \<le> length docs
       then addHyperlink (filenameMap (resolveFilenames docs)) docs
              (cells (json_to_sheet (map (dataRow bigNum fs) docs) (headers fs))) r (r, 0)
       else cells (json_to_sheet (map (dataRow bigNum fs) docs) (headers fs)) (r, c))"
    and "i < length docs \<Longrightarrow> c < length (headers fs) \<Longrightarrow>
      map_of (dataRow bigNum fs (docs ! i)) (headers fs ! c) = Some v \<Longrightarrow>
      cells (json_to_sheet (map (dataRow bigNum fs) docs) (headers fs)) (Suc i, c) =
        Some \<lparr> cellValue = v, linkTarget = None \<rparr>"
    and "length docs < r \<Longrightarrow>
      cells (json_to_sheet (map (dataRow bigNum fs) docs) (headers fs)) (r, c) = None"
proof -
  have rows: "\<forall>row \<in> set (map (dataRow bigNum fs) docs).
      fst ` set row \<subseteq> set (headers fs) \<and> distinct (map fst row)"
    using dataRow_keys [OF assms(2)] by auto
  note js = json_to_sheet_cell [OF assms(1) rows]
  show "lastRow (auditSheet bigNum fs docs) = length docs"
    by (simp add: auditSheet_def Let_def js(1))
  show "cells (auditSheet bigNum fs docs) (r, c) =
      (if c = 0 \<and> 1 \<le> r \<and> r \<le> length docs
       then addHyperlink (filenameMap (resolveFilenames docs)) docs
              (cells (json_to_sheet (map (dataRow bigNum fs) docs) (headers fs))) r (r, 0)
       else cells (json_to_sheet (map (dataRow bigNum fs) docs) (headers fs)) (r, c))"
    by (simp add: auditSheet_def Let_def js(1) addHyperlinks_cells [unfolded One_nat_def]
        del: upt_Suc)
  show "i < length docs \<Longrightarrow> c < length (headers fs) \<Longrightarrow>
      map_of (dataRow bigNum fs (docs ! i)) (headers fs ! c) = Some v \<Longrightarrow>
      cells (json_to_sheet (map (dataRow bigNum fs) docs) (headers fs)) (Suc i, c) =
        Some \<lparr> cellValue = v, linkTarget = None \<rparr>"
    by (simp add: js(2))
  show "length docs < r \<Longrightarrow>
      cells (json_to_sheet (map (dataRow bigNum fs) docs) (headers fs)) (r, c) = None"
    by (simp add: js(2))
qed

text \<open>
  Where nothing collides the sheet is as intended. Let the column headers be pairwise
  different, no field be named \<open>__proto__\<close>, the document ids be pairwise different,
  and every document have an annotated image or a file name that is not empty. Then the
  audit sheet, the first sheet of the workbook, has exactly one row per document, row
  \<open>i + 1\<close> for document \<open>i\<close>: its first cell holds the original file name and links to
  the folder name joined with the resolved name; its second cell holds the status; then
  one cell per field with the extracted value, empty when the value is absent; then
  one cell per field with the box serialized as text, empty when there is no box.
\<close>

lemma auditSheet_rows:
  assumes "distinct (headers fields')"
    and "\<forall>f \<in> set fields'. name f \<noteq> utf16 ''__proto__''"
    and "distinct (map doc_id documents)"
    and "\<forall>d \<in> set documents. annotatedBlob d \<noteq> None \<or> fileName d \<noteq> []"
  shows "lastRow (auditSheet bigNum fields' documents) = length documents \<and>
     (\<forall>r c. length documents < r \<longrightarrow> cells (auditSheet bigNum fields' documents) (r, c) = None) \<and>
     (\<forall>i<length documents.
        cells (auditSheet bigNum fields' documents) (Suc i, 0) =
          Some \<lparr> cellValue = fileName (documents ! i),
                 linkTarget = Some (folderName @ utf16 ''/'' @
                   usedFilenames (resolveFilenames documents) ! i) \<rparr> \<and>
        cells (auditSheet bigNum fields' documents) (Suc i, 1) =
          Some \<lparr> cellValue = status (documents ! i), linkTarget = None \<rparr> \<and>
        (\<forall>j<length fields'.
           cells (auditSheet bigNum fields' documents) (Suc i, 2 + j) =
             Some \<lparr> cellValue = valueText (data (documents ! i) (key (fields' ! j))),
                    linkTarget = None \<rparr> \<and>
           cells (auditSheet bigNum fields' documents) (Suc i, 2 + length fields' + j) =
             Some \<lparr> cellValue = coordsText bigNum (data (documents ! i) (key (fields' ! j))),
                    linkTarget = None \<rparr>)) \<and>
     valueText None = [] \<and> coordsText bigNum None = [] \<and>
     (\<forall>e. value' e = None \<longrightarrow> valueText (Some e) = []) \<and>
     (\<forall>e. box_2d e = None \<longrightarrow> coordsText bigNum (Some e) = []) \<and>
     (\<forall>e box. box_2d e = Some box \<longrightarrow> coordsText bigNum (Some e) = stringifyBox bigNum box) \<and>
     (\<forall>env rr. xlsxLoaded env \<and> jszipLoaded env \<longrightarrow>
        map_option hd (workbook (exportToZip env fields' documents (rr :: 'j ReconcileResult option))) =
          Some (utf16 ''Source Data (Tick)'', auditSheet (exponentForm env) fields' documents))"
proof (intro conjI allI impI)
  note sheet = auditSheet_sheet [OF assms(1,2), where docs = documents]
  note look = dataRow_lookup [OF assms(1,2)]
  note hn = headers_nth(1-3) [where fs = fields'] headers_nth_Suc [where fs = fields']
  show "lastRow (auditSheet bigNum fields' documents) = length documents"
    by (rule sheet(1))
  show "cells (auditSheet bigNum fields' documents) (r, c) = None" if "length documents < r" for r c
    using that by (simp add: sheet(2) sheet(4))
  show "cells (auditSheet bigNum fields' documents) (Suc i, 0) =
          Some \<lparr> cellValue = fileName (documents ! i),
                 linkTarget = Some (folderName @ utf16 ''/'' @
                   usedFilenames (resolveFilenames documents) ! i) \<rparr>"
    if i: "i < length documents" for i
  proof -
    have c0: "cells (json_to_sheet (map (dataRow bigNum fields') documents) (headers fields')) (Suc i, 0) =
        Some \<lparr> cellValue = fileName (documents ! i), linkTarget = None \<rparr>"
      using look [where doc = "documents ! i"] by (intro sheet(3) i) (simp_all add: hn)
    have "addHyperlink (filenameMap (resolveFilenames documents)) documents
        (cells (json_to_sheet (map (dataRow bigNum fields') documents) (headers fields'))) (Suc i) (Suc i, 0) =
      Some (\<lparr> cellValue = fileName (documents ! i), linkTarget = None \<rparr>
        \<lparr> linkTarget := Some (folderName @ utf16 ''/'' @
            usedFilenames (resolveFilenames documents) ! i) \<rparr>)"
      using i filenameMap_resolved [OF assms(3) i] resolved_nonempty [OF assms(4) i] c0
      by (intro addHyperlink_linked) simp_all
    with i show ?thesis by (simp add: sheet(2))
  qed
  show "cells (auditSheet bigNum fields' documents) (Suc i, 1) =
          Some \<lparr> cellValue = status (documents ! i), linkTarget = None \<rparr>"
    if i: "i < length documents" for i
    using look [where doc = "documents ! i"] sheet(3) [OF i, where c = "Suc 0" and v = "status (documents ! i)"]
    by (simp add: sheet(2) hn)
  show "cells (auditSheet bigNum fields' documents) (Suc i, 2 + j) =
             Some \<lparr> cellValue = valueText (data (documents ! i) (key (fields' ! j))),
                    linkTarget = None \<rparr>"
    if i: "i < length documents" and j: "j < length fields'" for i j
    using look [where doc = "documents ! i"] j
      sheet(3) [OF i, where c = "2 + j"
        and v = "valueText (data (documents ! i) (key (fields' ! j)))"]
    by (simp add: sheet(2) hn)
  show "cells (auditSheet bigNum fields' documents) (Suc i, 2 + length fields' + j) =
             Some \<lparr> cellValue = coordsText bigNum (data (documents ! i) (key (fields' ! j))),
                    linkTarget = None \<rparr>"
    if i: "i < length documents" and j: "j < length fields'" for i j
    using look [where doc = "documents ! i"] j
      sheet(3) [OF i, where c = "2 + length fields' + j"
        and v = "coordsText bigNum (data (documents ! i) (key (fields' ! j)))"]
    by (simp add: sheet(2) hn)
  show "valueText None = []" "coordsText bigNum None = []"
    by (simp_all add: valueText_def coordsText_def)
  show "valueText (Some e) = []" if "value' e = None" for e
    using that by (simp add: valueText_def)
  show "coordsText bigNum (Some e) = []" if "box_2d e = None" for e
    using that by (simp add: coordsText_def)
  show "coordsText bigNum (Some e) = stringifyBox bigNum box" if "box_2d e = Some box" for e box
    using that by (simp add: coordsText_def)
  show "map_option hd (workbook (exportToZip env fields' documents (rr :: 'j ReconcileResult option))) =
          Some (utf16 ''Source Data (Tick)'', auditSheet (exponentForm env) fields' documents)"
    if "xlsxLoaded env \<and> jszipLoaded env" for env rr
    using that by (simp add: exportToZip_def Let_def split: option.split)
qed


lemma auditSheet_rows_example:
  "distinct (headers [amountField]) \<and> name amountField \<noteq> utf16 ''__proto__'' \<and>
   distinct (map doc_id [invoicePdf]) \<and> annotatedBlob invoicePdf \<noteq> None \<and>
   lastRow (auditSheet bigNum [amountField] [invoicePdf]) = 1 \<and>
   cells (auditSheet bigNum [amountField] [invoicePdf]) (1, 0) =
     Some \<lparr> cellValue = utf16 ''a.pdf'',
            linkTarget = Some (utf16 ''annotated_documents/a_annotated.jpg'') \<rparr> \<and>
   cells (auditSheet bigNum [amountField] [invoicePdf]) (1, 1) =
     Some \<lparr> cellValue = utf16 ''success'', linkTarget = None \<rparr> \<and>
   cells (auditSheet bigNum [amountField] [invoicePdf]) (1, 2) =
     Some \<lparr> cellValue = utf16 ''12.50'', linkTarget = None \<rparr> \<and>
   cells (auditSheet bigNum [amountField] [invoicePdf]) (1, 3) =
     Some \<lparr> cellValue = utf16 ''[100,200,300,400]'', linkTarget = None \<rparr>"
proof -
  have h: "distinct (headers [amountField])" "\<forall>f \<in> set [amountField]. name f \<noteq> utf16 ''__proto__''"
    by (simp_all add: headers_def amountField_def utf16_def)
  have d: "distinct (map doc_id [invoicePdf])"
    "\<forall>d \<in> set [invoicePdf]. annotatedBlob d \<noteq> None \<or> fileName d \<noteq> []"
    by (simp_all add: invoicePdf_def annotatedPdf_def)
  have n: "usedFilenames (resolveFilenames [invoicePdf]) ! 0 = utf16 ''a_annotated.jpg''"
    by (simp add: resolveFilenames_def usedFilenames_addDocument uniqueNameLoop_free
        exportName_def invoicePdf_def annotatedPdf_def baseOf_def utf16_def)
  have v: "valueText (data invoicePdf (key amountField)) = utf16 ''12.50''"
    "coordsText bigNum (data invoicePdf (key amountField)) = utf16 ''[100,200,300,400]''"
    "fileName invoicePdf = utf16 ''a.pdf''" "status invoicePdf = utf16 ''success''"
    by (simp_all add: valueText_def coordsText_def stringifyBox_def numberToString_def decimal.simps
        invoicePdf_def annotatedPdf_def amountAt_def amountField_def utf16_def)
  note t = auditSheet_rows [OF h d]
  from t [THEN conjunct1] have "lastRow (auditSheet bigNum [amountField] [invoicePdf]) = 1" by simp
  moreover from t [THEN conjunct2, THEN conjunct2, THEN conjunct1, rule_format, of 0]
  have "cells (auditSheet bigNum [amountField] [invoicePdf]) (1, 0) =
     Some \<lparr> cellValue = utf16 ''a.pdf'',
            linkTarget = Some (utf16 ''annotated_documents/a_annotated.jpg'') \<rparr>"
    and "cells (auditSheet bigNum [amountField] [invoicePdf]) (1, 1) =
     Some \<lparr> cellValue = utf16 ''success'', linkTarget = None \<rparr>"
    and "cells (auditSheet bigNum [amountField] [invoicePdf]) (1, 2) =
     Some \<lparr> cellValue = utf16 ''12.50'', linkTarget = None \<rparr>"
    and "cells (auditSheet bigNum [amountField] [invoicePdf]) (1, 3) =
     Some \<lparr> cellValue = utf16 ''[100,200,300,400]'', linkTarget = None \<rparr>"
    by (simp_all add: n v folderName_def utf16_def)
  ultimately show ?thesis using h d by (simp add: invoicePdf_def annotatedPdf_def)
qed

text \<open>
  Claim C6. The file-name cell of a document's row is to hold the document's original
  file name, for every field list; the code says so itself (\<open>Use original filename for
  display row\<close>) and gives the fields columns of their own in the header. It fails to
  do so for a field named \<open>File Name\<close>: the row is an object keyed by column header,
  and the field's value is written over the file name under the same key. For the
  document \<open>a.pdf\<close>, which has no value for that field, the first cell of its row is
  empty, not \<open>a.pdf\<close>; the hyperlink is still there.
\<close>

theorem auditSheet_file_name_overwritten:
  "fileName annotatedPdf = utf16 ''a.pdf'' \<and>
   cells (auditSheet bigNum [fileNameField] [annotatedPdf]) (1, 0) =
     Some \<lparr> cellValue = [],
            linkTarget = Some (utf16 ''annotated_documents/a_annotated.jpg'') \<rparr>"
proof -
  have r: "dataRow bigNum [fileNameField] annotatedPdf =
      [(utf16 ''File Name'', []), (utf16 ''Status'', utf16 ''success''),
       (utf16 ''File Name (Coords)'', [])]"
    by (simp add: dataRow_def rowSet_def propSet_def isArrayIndex_def isAsciiDigit_def
        fileNameField_def annotatedPdf_def valueText_def coordsText_def utf16_def)
  have h: "headers [fileNameField] =
      [utf16 ''File Name'', utf16 ''Status'', utf16 ''File Name'', utf16 ''File Name (Coords)'']"
    by (simp add: headers_def fileNameField_def utf16_def)
  have f: "filenameMap (resolveFilenames [annotatedPdf]) (doc_id annotatedPdf) =
      Some (utf16 ''a_annotated.jpg'')"
    by (simp add: resolveFilenames_def filenameMap_addDocument uniqueNameLoop_free
        exportName_def annotatedPdf_def baseOf_def utf16_def)
  have "cells (auditSheet bigNum [fileNameField] [annotatedPdf]) (1, 0) =
     Some \<lparr> cellValue = [],
            linkTarget = Some (utf16 ''annotated_documents/a_annotated.jpg'') \<rparr>"
    by (simp add: auditSheet_def json_to_sheet_def r h sheetAddCell_def addHyperlink_def f Let_def
        folderName_def utf16_def)
  then show ?thesis by (simp add: annotatedPdf_def)
qed

section \<open>Export packager: missing libraries\<close>

text \<open>
  Claim C7. When the spreadsheet library or the archive library is not loaded,
  \<open>exportToZip\<close> logs the fact, shows the alert and returns: no workbook and no
  archive have been created, nothing is downloaded, and it ends normally.
\<close>

theorem exportToZip_libraries_unavailable:
  "\<not> xlsxLoaded env \<or> \<not> jszipLoaded env \<Longrightarrow>
   exportToZip env fields' documents reconcileResult =
     \<lparr> consoleErrors = [utf16 ''Required libraries (SheetJS or JSZip) not loaded''],
       alerts = [utf16 ''Export libraries are still loading. Please try again in a moment.''],
       workbook = None, archive = None, download = None, uncaught = False \<rparr>"
  by (simp add: exportToZip_def)

theorem exportToZip_libraries_unavailable_witness:
  "\<not> jszipLoaded librariesLoading \<and>
   exportToZip librariesLoading [amountField] [annotatedPdf] (None :: unit ReconcileResult option) =
     \<lparr> consoleErrors = [utf16 ''Required libraries (SheetJS or JSZip) not loaded''],
       alerts = [utf16 ''Export libraries are still loading. Please try again in a moment.''],
       workbook = None, archive = None, download = None, uncaught = False \<rparr>"
proof -
  have l: "\<not> xlsxLoaded librariesLoading \<or> \<not> jszipLoaded librariesLoading"
    by (simp add: librariesLoading_def)
  from exportToZip_libraries_unavailable [OF l, of "[amountField]" "[annotatedPdf]" "None :: unit ReconcileResult option"] l
  show ?thesis by (simp add: librariesLoading_def)
qed

end
